theory Spec2Isabelle
  imports Complex_Main "HOL-Library.Signed_Division"
begin

section \<open>Data model\<close>

text \<open>
  The C++ type \<open>int\<close> is modelled by \<open>int\<close>; signed overflow is undefined behaviour in
  C++ and lies outside the model. Integer \<open>/\<close> and \<open>%\<close> truncate towards zero in C++, so they
  are \<open>sdiv\<close> and \<open>smod\<close> here. The C++ type \<open>double\<close> is modelled by \<open>real\<close>: rounding
  is not modelled, and \<open>std::exp2 x\<close> is \<open>2 powr x\<close>.

  Record fields are global constants, so the short member names of the C++ are prefixed:
  \<open>x\<close>, \<open>y\<close> of \<open>Vector2i\<close> are \<open>ix\<close>, \<open>iy\<close>, those of \<open>Vector2d\<close> are \<open>dx\<close>, \<open>dy\<close>;
  \<open>a\<close>, \<open>b\<close>, \<open>c\<close>, \<open>d\<close> of \<open>AffineTransform\<close> are \<open>ta\<close>, \<open>tb\<close>, \<open>tc\<close>, \<open>td\<close>; the
  integer and real members of \<open>MOS\<close> carry the prefix \<open>mos_\<close>; the members \<open>nodes_\<close>,
  \<open>base_freq_\<close>, \<open>root_idx_\<close> of \<open>Scale\<close> lose their underscore.
\<close>

datatype error = AssertionFailed | DivisionByZero | OutOfBounds

record Vector2i =
  ix :: int
  iy :: int

record Vector2d =
  dx :: real
  dy :: real

text \<open>
  Modelled from the spec: the vector operators of the header affine_transform.hpp, which is
  not among the sources (spec section 3: addition and subtraction of lattice vectors are
  exact).
\<close>

definition addi :: "Vector2i \<Rightarrow> Vector2i \<Rightarrow> Vector2i" where
  "addi u v = \<lparr>ix = ix u + ix v, iy = iy u + iy v\<rparr>"

definition subi :: "Vector2i \<Rightarrow> Vector2i \<Rightarrow> Vector2i" where
  "subi u v = \<lparr>ix = ix u - ix v, iy = iy u - iy v\<rparr>"

definition toVector2d :: "Vector2i \<Rightarrow> Vector2d" where
  "toVector2d v = \<lparr>dx = real_of_int (ix v), dy = real_of_int (iy v)\<rparr>"

record AffineTransform =
  ta :: real
  tb :: real
  tc :: real
  td :: real
  tx :: real
  ty :: real

record IntegerAffineTransform =
  ita :: int
  itb :: int
  itc :: int
  itd :: int
  itx :: int
  ity :: int

text \<open>
  Modelled from the spec: \<open>AffineTransform::apply\<close>, \<open>operator*\<close> and the default
  constructor of affine_transform.hpp, which is not among the sources. Spec section 3:
  \<open>apply(x,y) = (a*x + b*y + tx, c*x + d*y + ty)\<close>, and \<open>compose(Outer, Inner)\<close> applies
  \<open>Inner\<close> first. The default constructor is taken to be the identity map.
\<close>

definition applyd :: "AffineTransform \<Rightarrow> Vector2d \<Rightarrow> Vector2d" where
  "applyd A v = \<lparr>dx = ta A * dx v + tb A * dy v + tx A,
                 dy = tc A * dx v + td A * dy v + ty A\<rparr>"

definition applyi :: "AffineTransform \<Rightarrow> Vector2i \<Rightarrow> Vector2d" where
  "applyi A v = applyd A (toVector2d v)"



record PitchSetPitch =
  label :: string
  log2fr :: real

record Node =
  natural_coord :: Vector2i
  tuning_coord :: Vector2d
  pitch :: real
  isTempered :: bool
  temperedPitch :: PitchSetPitch
  closestPitch :: PitchSetPitch

text \<open>
  Modelled from the spec: the default-constructed \<open>Node\<close> of node.hpp, which is not among
  the sources; all fields are taken to be zero. Every slot of a scale is overwritten by
  \<open>recalcWithAffine\<close> whenever the root index is in range.
\<close>

definition Node0 :: Node where
  "Node0 = \<lparr>natural_coord = \<lparr>ix = 0, iy = 0\<rparr>, tuning_coord = \<lparr>dx = 0, dy = 0\<rparr>,
            pitch = 0, isTempered = False,
            temperedPitch = \<lparr>label = [], log2fr = 0\<rparr>,
            closestPitch = \<lparr>label = [], log2fr = 0\<rparr>\<rparr>"

record Scale =
  nodes :: "Node list"
  base_freq :: real
  root_idx :: int

record MOS =
  mos_a :: int
  mos_b :: int
  mos_n :: int
  mos_a0 :: int
  mos_b0 :: int
  mos_n0 :: int
  mos_mode :: int
  mos_nL :: int
  mos_nS :: int
  mos_repetitions :: int
  mos_depth :: int
  mos_equave :: real
  mos_period :: real
  mos_generator :: real
  L_vec :: Vector2i
  s_vec :: Vector2i
  chroma_vec :: Vector2i
  L_fr :: real
  s_fr :: real
  chroma_fr :: real
  path :: "bool list"
  impliedAffine :: AffineTransform
  mosTransform :: IntegerAffineTransform
  v_gen :: Vector2i
  base_scale :: Scale

section \<open>Integer helpers of mos.cpp\<close>

text \<open>\<open>gcd\<close>: Euclid's algorithm with the truncating remainder of C++.\<close>

function gcd_src :: "int \<Rightarrow> int \<Rightarrow> int" where
  "gcd_src a b = (if b = 0 then a else gcd_src b (a smod b))"
  by pat_completeness auto
termination
proof (relation "measure (\<lambda>(a, b). nat \<bar>b\<bar>)")
  show "wf (measure (\<lambda>(a, b). nat \<bar>b\<bar>))" by simp
next
  fix a b :: int
  assume "b \<noteq> 0"
  then have "\<bar>a\<bar> mod \<bar>b\<bar> < \<bar>b\<bar>" by simp
  moreover have "0 \<le> \<bar>a\<bar> mod \<bar>b\<bar>"
    using \<open>b \<noteq> 0\<close> by simp
  then have "\<bar>a smod b\<bar> \<le> \<bar>a\<bar> mod \<bar>b\<bar>"
    by (cases "a = 0") (simp_all add: signed_modulo_int_def abs_mult)
  ultimately show "((b, a smod b), (a, b)) \<in> measure (\<lambda>(a, b). nat \<bar>b\<bar>)"
    by simp
qed

declare gcd_src.simps [simp del]

text \<open>
  \<open>calcPath\<close>: the subtractive Euclidean loop. It does not terminate on every input (for
  instance on \<open>(2, 0)\<close>), so the loop is a partial function: \<open>None\<close> means that the loop
  never leaves. The loop variables \<open>a_\<close>, \<open>b_\<close> of the C++ are \<open>a'\<close>, \<open>b'\<close>, and \<open>p\<close> is the
  vector \<open>path\<close> before its reversal.
\<close>

partial_function (option) calcPath_loop :: "int \<Rightarrow> int \<Rightarrow> bool list \<Rightarrow> bool list option" where
  "calcPath_loop a' b' p =
     (if a' > 1 \<or> b' > 1
      then (if a' > b' then calcPath_loop (a' - b') b' (p @ [False])
            else calcPath_loop a' (b' - a') (p @ [True]))
      else Some (rev p))"

declare calcPath_loop.simps [code]

definition calcPath :: "int \<Rightarrow> int \<Rightarrow> bool list option" where
  "calcPath a b = calcPath_loop a b []"

fun applyPath_loop :: "bool list \<Rightarrow> int \<Rightarrow> int \<Rightarrow> Vector2i" where
  "applyPath_loop [] a b = \<lparr>ix = a, iy = b\<rparr>"
| "applyPath_loop (p # ps) a b =
     (if p then applyPath_loop ps a (b + a) else applyPath_loop ps (a + b) b)"

definition applyPath :: "bool list \<Rightarrow> Vector2i \<Rightarrow> Vector2i" where
  "applyPath ps v = applyPath_loop ps (ix v) (iy v)"

fun applyPathReverse_loop :: "bool list \<Rightarrow> int \<Rightarrow> int \<Rightarrow> Vector2i" where
  "applyPathReverse_loop [] a b = \<lparr>ix = a, iy = b\<rparr>"
| "applyPathReverse_loop (p # ps) a b =
     (if p then applyPathReverse_loop ps a (b - a) else applyPathReverse_loop ps (a - b) b)"

definition applyPathReverse :: "bool list \<Rightarrow> Vector2i \<Rightarrow> Vector2i" where
  "applyPathReverse ps v = applyPathReverse_loop (rev ps) (ix v) (iy v)"

section \<open>Membership and degree queries\<close>

definition nodeInScale :: "MOS \<Rightarrow> Vector2i \<Rightarrow> bool" where
  "nodeInScale m v =
     (let d = ix v * mos_b m - iy v * mos_a m + mos_mode m
      in if d < 0 \<or> d \<ge> mos_n m then False else True)"

text \<open>
  \<open>nodeScaleDegree\<close> and \<open>nodeEquaveNr\<close> (mos.hpp). A zero \<open>n\<close> makes the C++ division
  trap; the model returns \<open>DivisionByZero\<close> there.
\<close>

definition nodeScaleDegree :: "MOS \<Rightarrow> Vector2i \<Rightarrow> error + int" where
  "nodeScaleDegree m v =
     (if mos_n m = 0 then Inl DivisionByZero
      else Inr ((ix v + iy v + 256 * mos_n m) smod mos_n m))"

definition nodeEquaveNr :: "MOS \<Rightarrow> Vector2i \<Rightarrow> error + int" where
  "nodeEquaveNr m v =
     (if mos_n m = 0 then Inl DivisionByZero
      else Inr ((ix v + iy v + 256 * mos_n m) sdiv mos_n m - 256))"

section \<open>Scale generation (scale.cpp)\<close>

text \<open>
  The functions \<open>LinearSolver6x6::solve\<close> (linear_solver.hpp), \<open>findClosestWithinStrip\<close>
  (lattice.hpp) and \<open>IntegerAffineTransform::linearFromTwoDots\<close> (affine_transform.hpp)
  are called by the sources but are not among them. They are parameters of the model:
  arbitrary total functions, collected in one record. The solver's result, a
  \<open>std::array<double, 6>\<close>, is a six-tuple.
\<close>

type_synonym array6 = "real \<times> real \<times> real \<times> real \<times> real \<times> real"

record externals =
  solve :: "real list list \<Rightarrow> real list \<Rightarrow> array6"
  findClosestWithinStrip :: "AffineTransform \<Rightarrow> Vector2i \<times> Vector2i"
  linearFromTwoDots :: "Vector2i \<Rightarrow> Vector2i \<Rightarrow> Vector2i \<Rightarrow> Vector2i \<Rightarrow> IntegerAffineTransform"

definition initNodes :: "int \<Rightarrow> Node list" where
  "initNodes N = replicate (nat N) Node0"

definition newScale :: "real \<Rightarrow> int \<Rightarrow> int \<Rightarrow> Scale" where
  "newScale bf N root_node_idx = \<lparr>nodes = initNodes N, base_freq = bf, root_idx = root_node_idx\<rparr>"

text \<open>One turn of the forward loop of \<open>recalcWithAffine\<close>: the new value of \<open>last\<close>.\<close>

definition forward_step ::
  "AffineTransform \<Rightarrow> real \<Rightarrow> Vector2i \<Rightarrow> Vector2i \<Rightarrow> Vector2d \<Rightarrow> Vector2d \<Rightarrow> Node \<Rightarrow> Node" where
  "forward_step A bf r s zr zs lst =
     (let l1 = (if 0 \<le> dy (tuning_coord lst) + dy zr \<and> dy (tuning_coord lst) + dy zr < 1
                then lst\<lparr>natural_coord := addi (natural_coord lst) r\<rparr>
                else if 0 \<le> dy (tuning_coord lst) + dy zs \<and> dy (tuning_coord lst) + dy zs < 1
                then lst\<lparr>natural_coord := addi (natural_coord lst) s\<rparr>
                else lst\<lparr>natural_coord := addi (natural_coord lst) (addi r s)\<rparr>);
          l2 = l1\<lparr>tuning_coord := applyi A (natural_coord l1)\<rparr>
      in l2\<lparr>pitch := bf * 2 powr dx (tuning_coord l2)\<rparr>)"

definition backward_step ::
  "AffineTransform \<Rightarrow> real \<Rightarrow> Vector2i \<Rightarrow> Vector2i \<Rightarrow> Vector2d \<Rightarrow> Vector2d \<Rightarrow> Node \<Rightarrow> Node" where
  "backward_step A bf r s zr zs lst =
     (let l1 = (if 0 \<le> dy (tuning_coord lst) - dy zr \<and> dy (tuning_coord lst) - dy zr < 1
                then lst\<lparr>natural_coord := subi (natural_coord lst) r\<rparr>
                else if 0 \<le> dy (tuning_coord lst) - dy zs \<and> dy (tuning_coord lst) - dy zs < 1
                then lst\<lparr>natural_coord := subi (natural_coord lst) s\<rparr>
                else lst\<lparr>natural_coord := subi (natural_coord lst) (addi r s)\<rparr>);
          l2 = l1\<lparr>tuning_coord := applyi A (natural_coord l1)\<rparr>
      in l2\<lparr>pitch := bf * 2 powr dx (tuning_coord l2)\<rparr>)"

text \<open>
  The two loops. The variable \<open>lst\<close> is the \<open>last\<close> of the C++; \<open>step\<close> is the loop
  body's update of it, and the loop stores the new value at index \<open>root_node_idx + n\<close>.
\<close>

function forward_pass :: "(Node \<Rightarrow> Node) \<Rightarrow> int \<Rightarrow> int \<Rightarrow> int \<Rightarrow> Node \<Rightarrow> Node list \<Rightarrow> Node list" where
  "forward_pass step root_node_idx n_max n lst ns =
     (if n < n_max
      then (let lst' = step lst
            in forward_pass step root_node_idx n_max (n + 1) lst'
                 (ns[nat (root_node_idx + n) := lst']))
      else ns)"
  by pat_completeness auto
termination
  by (relation "measure (\<lambda>(step, root_node_idx, n_max, n, lst, ns). nat (n_max - n))") auto

function backward_pass :: "(Node \<Rightarrow> Node) \<Rightarrow> int \<Rightarrow> int \<Rightarrow> int \<Rightarrow> Node \<Rightarrow> Node list \<Rightarrow> Node list" where
  "backward_pass step root_node_idx n_min n lst ns =
     (if n \<ge> n_min
      then (let lst' = step lst
            in backward_pass step root_node_idx n_min (n - 1) lst'
                 (ns[nat (root_node_idx + n) := lst']))
      else ns)"
  by pat_completeness auto
termination
  by (relation "measure (\<lambda>(step, root_node_idx, n_min, n, lst, ns). nat (n - n_min + 1))") auto

declare forward_pass.simps [simp del] backward_pass.simps [simp del]

text \<open>
  \<open>recalcWithAffine\<close>. The C++ writes \<open>nodes_[root_node_idx + n]\<close> unchecked; the indices
  written are \<open>root_node_idx\<close>, those above it up to \<open>N - 1\<close> and those below it down to 0,
  so a write falls outside the vector exactly when the root index is outside it or \<open>N\<close>
  exceeds its length. That undefined behaviour is the result \<open>OutOfBounds\<close>.
\<close>

definition recalcWithAffine ::
  "(AffineTransform \<Rightarrow> Vector2i \<times> Vector2i) \<Rightarrow> AffineTransform \<Rightarrow> int \<Rightarrow> int \<Rightarrow> Scale \<Rightarrow> error + Scale" where
  "recalcWithAffine fcs A N root_node_idx sc =
     (let M = A\<lparr>tx := 0, ty := 0\<rparr>;
          (r, s) = fcs M;
          zr = applyi M r;
          zs = applyi M s;
          n_min = - root_node_idx;
          n_max = N - root_node_idx;
          root = Node0\<lparr>natural_coord := \<lparr>ix = 0, iy = 0\<rparr>\<rparr>;
          root = root\<lparr>tuning_coord := applyi A (natural_coord root)\<rparr>;
          root = root\<lparr>pitch := base_freq sc\<rparr>
      in if root_node_idx < 0 \<or> int (length (nodes sc)) \<le> root_node_idx
            \<or> int (length (nodes sc)) < N
         then Inl OutOfBounds
         else (let ns1 = (nodes sc)[nat root_node_idx := root];
                   ns2 = forward_pass (forward_step A (base_freq sc) r s zr zs)
                           root_node_idx n_max 1 root ns1;
                   ns3 = backward_pass (backward_step A (base_freq sc) r s zr zs)
                           root_node_idx n_min (- 1) root ns2
               in Inr (sc\<lparr>nodes := ns3\<rparr>)))"

definition fromAffine ::
  "(AffineTransform \<Rightarrow> Vector2i \<times> Vector2i) \<Rightarrow> AffineTransform \<Rightarrow> real \<Rightarrow> int \<Rightarrow> int \<Rightarrow> error + Scale" where
  "fromAffine fcs A bf N root_node_idx =
     recalcWithAffine fcs A N root_node_idx (newScale bf N root_node_idx)"

definition retuneWithAffine :: "AffineTransform \<Rightarrow> Scale \<Rightarrow> Scale" where
  "retuneWithAffine A sc =
     sc\<lparr>nodes := map (\<lambda>node.
            (let n1 = node\<lparr>tuning_coord := applyi A (natural_coord node)\<rparr>;
                 n2 = n1\<lparr>pitch := base_freq sc * 2 powr dx (tuning_coord n1)\<rparr>
             in n2\<lparr>isTempered := False\<rparr>)) (nodes sc)\<rparr>"

section \<open>MOS construction (mos.cpp, params.cpp)\<close>

text \<open>
  \<open>affineFromThreeDots\<close> (params.cpp). The matrix and the right-hand side that the C++
  builds inline are two definitions here, so that statements about the solver's answer can
  name them.
\<close>

definition threeDotsMatrix :: "Vector2d \<Rightarrow> Vector2d \<Rightarrow> Vector2d \<Rightarrow> real list list" where
  "threeDotsMatrix a1 a2 a3 =
     [[dx a1, dy a1, 1, 0, 0, 0],
      [0, 0, 0, dx a1, dy a1, 1],
      [dx a2, dy a2, 1, 0, 0, 0],
      [0, 0, 0, dx a2, dy a2, 1],
      [dx a3, dy a3, 1, 0, 0, 0],
      [0, 0, 0, dx a3, dy a3, 1]]"

definition threeDotsRhs :: "Vector2d \<Rightarrow> Vector2d \<Rightarrow> Vector2d \<Rightarrow> real list" where
  "threeDotsRhs b1 b2 b3 = [dx b1, dy b1, dx b2, dy b2, dx b3, dy b3]"

definition affineFromThreeDots ::
  "(real list list \<Rightarrow> real list \<Rightarrow> array6) \<Rightarrow>
   Vector2d \<Rightarrow> Vector2d \<Rightarrow> Vector2d \<Rightarrow> Vector2d \<Rightarrow> Vector2d \<Rightarrow> Vector2d \<Rightarrow> AffineTransform" where
  "affineFromThreeDots slv a1 a2 a3 b1 b2 b3 =
     (let M = threeDotsMatrix a1 a2 a3;
          b = threeDotsRhs b1 b2 b3;
          (s0, s1, s2, s3, s4, s5) = slv M b
      in \<lparr>ta = s0, tb = s1, tc = s3, td = s4, tx = s2, ty = s5\<rparr>)"

definition calcImpliedAffine :: "(real list list \<Rightarrow> real list \<Rightarrow> array6) \<Rightarrow> MOS \<Rightarrow> AffineTransform" where
  "calcImpliedAffine slv m =
     (let q = 0.5 / real_of_int (mos_n0 m)
      in affineFromThreeDots slv
           \<lparr>dx = 0, dy = 0\<rparr>
           \<lparr>dx = real_of_int (ix (v_gen m)), dy = real_of_int (iy (v_gen m))\<rparr>
           \<lparr>dx = real_of_int (mos_a0 m), dy = real_of_int (mos_b0 m)\<rparr>
           \<lparr>dx = 0, dy = q * real_of_int (2 * mos_mode m + 1)\<rparr>
           \<lparr>dx = mos_generator m * mos_period m, dy = q * real_of_int (2 * mos_mode m + 3)\<rparr>
           \<lparr>dx = mos_period m, dy = q * real_of_int (2 * mos_mode m + 1)\<rparr>)"

definition updateVectors :: "MOS \<Rightarrow> MOS" where
  "updateVectors m =
     (let v1 = \<lparr>ix = 1, iy = 0\<rparr>;
          v2 = \<lparr>ix = 0, iy = 1\<rparr>;
          v1_fr = dx (applyi (impliedAffine m) v1);
          v2_fr = dx (applyi (impliedAffine m) v2);
          m1 = (if v1_fr > v2_fr
                then m\<lparr>L_vec := v1, s_vec := v2, L_fr := v1_fr, s_fr := v2_fr,
                       mos_nL := mos_a m, mos_nS := mos_b m\<rparr>
                else m\<lparr>L_vec := v2, s_vec := v1, L_fr := v2_fr, s_fr := v1_fr,
                       mos_nL := mos_b m, mos_nS := mos_a m\<rparr>);
          m2 = m1\<lparr>chroma_vec := subi (L_vec m1) (s_vec m1)\<rparr>
      in m2\<lparr>chroma_fr := L_fr m2 - s_fr m2\<rparr>)"

definition coordToFreq :: "MOS \<Rightarrow> real \<Rightarrow> real \<Rightarrow> real \<Rightarrow> real" where
  "coordToFreq m x y bf = bf * 2 powr dx (applyd (impliedAffine m) \<lparr>dx = x, dy = y\<rparr>)"

text \<open>
  \<open>adjustParams\<close>. A failing \<open>assert\<close> aborts the program: the call has no result state,
  which is the value \<open>Inl AssertionFailed\<close>. The outer \<open>option\<close> is \<open>None\<close> when the loop of
  \<open>calcPath\<close> does not terminate. After the assertions \<open>r\<close> is positive, so the integer
  divisions by \<open>r\<close> and the real divisions by \<open>r\<close> and \<open>n0\<close> have a nonzero divisor.
\<close>

definition adjustParams ::
  "externals \<Rightarrow> int \<Rightarrow> int \<Rightarrow> int \<Rightarrow> real \<Rightarrow> real \<Rightarrow> MOS \<Rightarrow> (error + MOS) option" where
  "adjustParams ext a b m e g this =
     (if \<not> a > 0 then Some (Inl AssertionFailed)
      else if \<not> b > 0 then Some (Inl AssertionFailed)
      else if \<not> (0 \<le> g \<and> g \<le> 1) then Some (Inl AssertionFailed)
      else
        (let n = a + b;
             r = gcd_src a b;
             a0 = a sdiv r;
             b0 = b sdiv r;
             n0 = a0 + b0;
             m1 = this\<lparr>mos_a := a, mos_b := b, mos_n := n, mos_a0 := a0, mos_b0 := b0,
                       mos_n0 := n0, mos_mode := m, mos_repetitions := r,
                       mos_equave := e, mos_period := e / real_of_int r, mos_generator := g\<rparr>
         in case calcPath a0 b0 of
              None \<Rightarrow> None
            | Some p \<Rightarrow>
               (let m2 = m1\<lparr>path := p\<rparr>;
                    m3 = m2\<lparr>mos_depth := int (length (path m2))\<rparr>;
                    m4 = m3\<lparr>v_gen := applyPath (path m3) \<lparr>ix = 1, iy = 0\<rparr>\<rparr>;
                    m5 = m4\<lparr>impliedAffine := calcImpliedAffine (solve ext) m4\<rparr>;
                    m6 = updateVectors m5
                in case fromAffine (findClosestWithinStrip ext) (impliedAffine m6) 1 (n + 1) 0 of
                     Inl err \<Rightarrow> Some (Inl err)
                   | Inr sc \<Rightarrow>
                      (let m7 = m6\<lparr>base_scale := sc\<rparr>
                       in Some (Inr (m7\<lparr>mosTransform :=
                            linearFromTwoDots ext \<lparr>ix = 1, iy = 0\<rparr> \<lparr>ix = 1, iy = 1\<rparr>
                              (v_gen m7) \<lparr>ix = mos_a0 m7, iy = mos_b0 m7\<rparr>\<rparr>))))))"


text \<open>
  Modelled from the spec: the contract of \<open>LinearSolver6x6::solve\<close> (linear_solver.hpp),
  which is not among the sources, for one call. Spec section 4.1: the solver returns the
  solution of the system; \<open>solves M b x\<close> says that \<open>x\<close> is a solution of \<open>M x = b\<close>.
  \<open>impliedAffineSolved\<close> says so of the solver's answer to the system that
  \<open>calcImpliedAffine\<close> sets up for the state \<open>m\<close>.
\<close>

definition solves :: "real list list \<Rightarrow> real list \<Rightarrow> array6 \<Rightarrow> bool" where
  "solves M b x =
     (case x of (s0, s1, s2, s3, s4, s5) \<Rightarrow>
        map (\<lambda>row. sum_list (map2 (*) row [s0, s1, s2, s3, s4, s5])) M = b)"

definition impliedAffineSolved :: "(real list list \<Rightarrow> real list \<Rightarrow> array6) \<Rightarrow> MOS \<Rightarrow> bool" where
  "impliedAffineSolved slv m =
     (let q = 0.5 / real_of_int (mos_n0 m);
          M = threeDotsMatrix
                \<lparr>dx = 0, dy = 0\<rparr>
                \<lparr>dx = real_of_int (ix (v_gen m)), dy = real_of_int (iy (v_gen m))\<rparr>
                \<lparr>dx = real_of_int (mos_a0 m), dy = real_of_int (mos_b0 m)\<rparr>;
          b = threeDotsRhs
                \<lparr>dx = 0, dy = q * real_of_int (2 * mos_mode m + 1)\<rparr>
                \<lparr>dx = mos_generator m * mos_period m, dy = q * real_of_int (2 * mos_mode m + 3)\<rparr>
                \<lparr>dx = mos_period m, dy = q * real_of_int (2 * mos_mode m + 1)\<rparr>
      in solves M b (slv M b))"

text \<open>
  Modelled from the spec: the result of \<open>findClosestWithinStrip\<close> (lattice.hpp), which is
  not among the sources. Spec section 4.3: \<open>r\<close> is a lattice vector whose image under the
  linear map has positive \<open>y\<close>, \<open>s\<close> one whose image has negative \<open>y\<close>, and from any point of
  the strip adding \<open>r\<close> or \<open>s\<close> produces the next point of the strip. So the image of \<open>r\<close>
  rises by at most the strip's height, the image of \<open>s\<close> falls by at most that, and both
  advance in \<open>x\<close>. \<open>stripPair\<close> keeps these bounds and no more: it does not ask that one of
  \<open>r\<close>, \<open>s\<close> always applies, so it leaves the third branch of the loops reachable.
\<close>

definition stripPair :: "AffineTransform \<Rightarrow> Vector2i \<times> Vector2i \<Rightarrow> bool" where
  "stripPair M rs =
     (case rs of (r, s) \<Rightarrow>
        0 < dy (applyi M r) \<and> dy (applyi M r) \<le> 1
        \<and> - 1 \<le> dy (applyi M s) \<and> dy (applyi M s) < 0
        \<and> 0 < dx (applyi M r) \<and> 0 < dx (applyi M s))"

section \<open>Retuning (mos.cpp)\<close>

text \<open>
  \<open>_recalcOnRetuneUsingAffine\<close>. Where the new period is zero the C++ quotient stored in
  \<open>generator\<close> is NaN or infinite; the reals have no such value and the model's field
  holds HOL's \<open>x / 0 = 0\<close> there. No definition below reads \<open>generator\<close> after a retune.
\<close>

definition recalcOnRetuneUsingAffine :: "AffineTransform \<Rightarrow> MOS \<Rightarrow> MOS" where
  "recalcOnRetuneUsingAffine A m =
     (let m1 = m\<lparr>base_scale := retuneWithAffine A (base_scale m)\<rparr>;
          m2 = m1\<lparr>impliedAffine := A\<rparr>;
          m3 = m2\<lparr>mos_equave := dx (applyi A \<lparr>ix = mos_a m2, iy = mos_b m2\<rparr>)
                                  - dx (applyi A \<lparr>ix = 0, iy = 0\<rparr>)\<rparr>;
          m4 = m3\<lparr>mos_period := dx (applyi A \<lparr>ix = mos_a0 m3, iy = mos_b0 m3\<rparr>)
                                  - dx (applyi A \<lparr>ix = 0, iy = 0\<rparr>)\<rparr>;
          m5 = m4\<lparr>mos_generator := (dx (applyi A (v_gen m4)) - dx (applyi A \<lparr>ix = 0, iy = 0\<rparr>))
                                     / mos_period m4\<rparr>
      in updateVectors m5)"

definition retuneOnePoint :: "MOS \<Rightarrow> Vector2i \<Rightarrow> real \<Rightarrow> MOS" where
  "retuneOnePoint m v lfr =
     (let shift = lfr - dx (applyi (impliedAffine m) v);
          A = impliedAffine m;
          A = A\<lparr>tx := tx A + shift\<rparr>
      in recalcOnRetuneUsingAffine A m)"


section \<open>Properties of the integer helpers\<close>

lemma gcd_src_eq_gcd: "0 \<le> a \<Longrightarrow> 0 \<le> b \<Longrightarrow> gcd_src a b = gcd a b"
proof (induction a b rule: gcd_src.induct)
  case (1 a b)
  show ?case
  proof (cases "b = 0")
    case True
    with 1 show ?thesis by (simp add: gcd_src.simps)
  next
    case False
    with 1 have bpos: "0 < b" by simp
    have sm: "a smod b = a mod b"
      using 1(2) bpos by (simp add: signed_modulo_int_def sgn_if)
    have "gcd_src a b = gcd_src b (a smod b)"
      using False by (simp add: gcd_src.simps)
    also have "\<dots> = gcd b (a smod b)"
      using 1 False bpos sm by simp
    also have "\<dots> = gcd a b"
      using gcd_red_int[of a b] by (simp add: sm)
    finally show ?thesis .
  qed
qed

lemma applyPath_loop_append:
  "applyPath_loop (ps @ qs) a b =
     applyPath_loop qs (ix (applyPath_loop ps a b)) (iy (applyPath_loop ps a b))"
  by (induction ps arbitrary: a b) simp_all

lemma applyPathReverse_loop_append:
  "applyPathReverse_loop (ps @ qs) a b =
     applyPathReverse_loop qs (ix (applyPathReverse_loop ps a b)) (iy (applyPathReverse_loop ps a b))"
  by (induction ps arbitrary: a b) simp_all

lemma applyPath_loop_roundtrip:
  "applyPathReverse_loop (rev ps) (ix (applyPath_loop ps a b)) (iy (applyPath_loop ps a b))
     = \<lparr>ix = a, iy = b\<rparr>"
  by (induction ps arbitrary: a b) (simp_all add: applyPathReverse_loop_append)

lemma applyPath_loop_det:
  "ix (applyPath_loop ps a b) * iy (applyPath_loop ps c d)
     - iy (applyPath_loop ps a b) * ix (applyPath_loop ps c d) = a * d - b * c"
proof (induction ps arbitrary: a b c d)
  case Nil
  show ?case by simp
next
  case (Cons p ps)
  show ?case
  proof (cases p)
    case True
    then show ?thesis
      using Cons.IH[of a "b + a" c "d + c"] by (simp add: algebra_simps)
  next
    case False
    then show ?thesis
      using Cons.IH[of "a + b" b "c + d" d] by (simp add: algebra_simps)
  qed
qed

lemma calcPath_loop_terminates:
  "1 \<le> a \<Longrightarrow> 1 \<le> b \<Longrightarrow> coprime a b \<Longrightarrow>
     \<exists>q. calcPath_loop a b acc = Some (q @ rev acc) \<and> applyPath_loop q 1 1 = \<lparr>ix = a, iy = b\<rparr>"
proof (induction "nat (a + b)" arbitrary: a b acc rule: less_induct)
  case less
  show ?case
  proof (cases "a > 1 \<or> b > 1")
    case False
    with less.prems have "a = 1" "b = 1" by auto
    then have "calcPath_loop a b acc = Some ([] @ rev acc)"
      by (simp add: calcPath_loop.simps)
    moreover have "applyPath_loop [] 1 1 = \<lparr>ix = a, iy = b\<rparr>"
      using \<open>a = 1\<close> \<open>b = 1\<close> by simp
    ultimately show ?thesis by blast
  next
    case True
    show ?thesis
    proof (cases "a > b")
      case agt: True
      have c: "coprime (a - b) b"
        using less.prems(3) gcd_add1[of "a - b" b] by (simp add: coprime_iff_gcd_eq_1)
      have "\<exists>q. calcPath_loop (a - b) b (acc @ [False]) = Some (q @ rev (acc @ [False]))
                \<and> applyPath_loop q 1 1 = \<lparr>ix = a - b, iy = b\<rparr>"
        using less.hyps[of "a - b" b "acc @ [False]"] less.prems agt c by simp
      then obtain q where q: "calcPath_loop (a - b) b (acc @ [False]) = Some (q @ rev (acc @ [False]))"
        "applyPath_loop q 1 1 = \<lparr>ix = a - b, iy = b\<rparr>" by blast
      have "calcPath_loop a b acc = Some ((q @ [False]) @ rev acc)"
        using True agt q(1) by (subst calcPath_loop.simps) simp
      moreover have "applyPath_loop (q @ [False]) 1 1 = \<lparr>ix = a, iy = b\<rparr>"
        by (simp add: applyPath_loop_append q(2))
      ultimately show ?thesis by blast
    next
      case ale: False
      have "a \<noteq> b"
      proof
        assume "a = b"
        with less.prems(3) have "b = 1" using less.prems(2) by simp
        with \<open>a = b\<close> True show False by simp
      qed
      with ale have alt: "a < b" by simp
      have c: "coprime a (b - a)"
        using less.prems(3) gcd_add2[of a "b - a"] by (simp add: coprime_iff_gcd_eq_1)
      have "\<exists>q. calcPath_loop a (b - a) (acc @ [True]) = Some (q @ rev (acc @ [True]))
                \<and> applyPath_loop q 1 1 = \<lparr>ix = a, iy = b - a\<rparr>"
        using less.hyps[of a "b - a" "acc @ [True]"] less.prems alt c by simp
      then obtain q where q: "calcPath_loop a (b - a) (acc @ [True]) = Some (q @ rev (acc @ [True]))"
        "applyPath_loop q 1 1 = \<lparr>ix = a, iy = b - a\<rparr>" by blast
      have "calcPath_loop a b acc = Some ((q @ [True]) @ rev acc)"
        using True ale q(1) by (subst calcPath_loop.simps) simp
      moreover have "applyPath_loop (q @ [True]) 1 1 = \<lparr>ix = a, iy = b\<rparr>"
        by (simp add: applyPath_loop_append q(2))
      ultimately show ?thesis by blast
    qed
  qed
qed

section \<open>Properties of the two loops of \<open>recalcWithAffine\<close>\<close>

lemma forward_pass_length:
  "length (forward_pass step ri n_max n lst ns) = length ns"
proof (induction step ri n_max n lst ns rule: forward_pass.induct)
  case (1 step ri n_max n lst ns)
  show ?case
  proof (cases "n < n_max")
    case True
    then show ?thesis
      using "1.IH"[OF True refl] by (subst forward_pass.simps) (simp add: Let_def)
  next
    case False
    then show ?thesis by (subst forward_pass.simps) simp
  qed
qed

lemma forward_pass_below:
  "0 \<le> ri + n \<Longrightarrow> i < nat (ri + n) \<Longrightarrow>
     forward_pass step ri n_max n lst ns ! i = ns ! i"
proof (induction step ri n_max n lst ns rule: forward_pass.induct)
  case (1 step ri n_max n lst ns)
  show ?case
  proof (cases "n < n_max")
    case True
    have "forward_pass step ri n_max n lst ns ! i
            = forward_pass step ri n_max (n + 1) (step lst) (ns[nat (ri + n) := step lst]) ! i"
      using True by (subst forward_pass.simps) (simp add: Let_def)
    also have "\<dots> = (ns[nat (ri + n) := step lst]) ! i"
      using "1.IH"[OF True refl] "1.prems" by simp
    also have "\<dots> = ns ! i"
      using "1.prems" by simp
    finally show ?thesis .
  next
    case False
    then show ?thesis by (subst forward_pass.simps) simp
  qed
qed

lemma forward_pass_written:
  "(\<And>x. P (step x)) \<Longrightarrow> 0 \<le> ri + n \<Longrightarrow> i < length ns \<Longrightarrow> ri + n \<le> int i \<Longrightarrow> int i < ri + n_max \<Longrightarrow>
     P (forward_pass step ri n_max n lst ns ! i)"
proof (induction step ri n_max n lst ns rule: forward_pass.induct)
  case (1 step ri n_max n lst ns)
  have lt: "n < n_max" using "1.prems" by simp
  have unf: "forward_pass step ri n_max n lst ns
            = forward_pass step ri n_max (n + 1) (step lst) (ns[nat (ri + n) := step lst])"
    using lt by (subst forward_pass.simps) (simp add: Let_def)
  show ?case
  proof (cases "int i = ri + n")
    case True
    then have i: "i = nat (ri + n)" by simp
    have "forward_pass step ri n_max (n + 1) (step lst) (ns[nat (ri + n) := step lst]) ! i
            = (ns[nat (ri + n) := step lst]) ! i"
      using "1.prems" i by (intro forward_pass_below) simp_all
    also have "\<dots> = step lst" using "1.prems" i by simp
    finally show ?thesis using "1.prems"(1) unf by simp
  next
    case False
    then have "ri + (n + 1) \<le> int i" using "1.prems" by simp
    then show ?thesis
      using "1.IH"[OF lt refl] "1.prems" unf by simp
  qed
qed

lemma backward_pass_length:
  "length (backward_pass step ri n_min n lst ns) = length ns"
proof (induction step ri n_min n lst ns rule: backward_pass.induct)
  case (1 step ri n_min n lst ns)
  show ?case
  proof (cases "n \<ge> n_min")
    case True
    then show ?thesis
      using "1.IH"[OF True refl] by (subst backward_pass.simps) (simp add: Let_def)
  next
    case False
    then show ?thesis by (subst backward_pass.simps) simp
  qed
qed

lemma backward_pass_above:
  "0 \<le> ri + n_min \<Longrightarrow> ri + n < int i \<Longrightarrow>
     backward_pass step ri n_min n lst ns ! i = ns ! i"
proof (induction step ri n_min n lst ns rule: backward_pass.induct)
  case (1 step ri n_min n lst ns)
  show ?case
  proof (cases "n \<ge> n_min")
    case True
    have "backward_pass step ri n_min n lst ns ! i
            = backward_pass step ri n_min (n - 1) (step lst) (ns[nat (ri + n) := step lst]) ! i"
      using True by (subst backward_pass.simps) (simp add: Let_def)
    also have "\<dots> = (ns[nat (ri + n) := step lst]) ! i"
      using "1.IH"[OF True refl] "1.prems" by simp
    also have "\<dots> = ns ! i"
      using "1.prems" True by simp
    finally show ?thesis .
  next
    case False
    then show ?thesis by (subst backward_pass.simps) simp
  qed
qed

lemma backward_pass_written:
  "(\<And>x. P (step x)) \<Longrightarrow> 0 \<le> ri + n_min \<Longrightarrow> i < length ns \<Longrightarrow> ri + n_min \<le> int i \<Longrightarrow> int i \<le> ri + n \<Longrightarrow>
     P (backward_pass step ri n_min n lst ns ! i)"
proof (induction step ri n_min n lst ns rule: backward_pass.induct)
  case (1 step ri n_min n lst ns)
  have ge: "n \<ge> n_min" using "1.prems" by simp
  have unf: "backward_pass step ri n_min n lst ns
            = backward_pass step ri n_min (n - 1) (step lst) (ns[nat (ri + n) := step lst])"
    using ge by (subst backward_pass.simps) (simp add: Let_def)
  show ?case
  proof (cases "int i = ri + n")
    case True
    then have i: "i = nat (ri + n)" by simp
    have "backward_pass step ri n_min (n - 1) (step lst) (ns[nat (ri + n) := step lst]) ! i
            = (ns[nat (ri + n) := step lst]) ! i"
      using "1.prems" True by (intro backward_pass_above) simp_all
    also have "\<dots> = step lst" using "1.prems" i by simp
    finally show ?thesis using "1.prems"(1) unf by simp
  next
    case False
    then have "int i \<le> ri + (n - 1)" using "1.prems" by simp
    then show ?thesis
      using "1.IH"[OF ge refl] "1.prems" unf by simp
  qed
qed

lemma forward_pass_chain:
  "(\<And>x. Q x \<Longrightarrow> Q (step x) \<and> R x (step x)) \<Longrightarrow> Q lst \<Longrightarrow> 1 \<le> ri + n \<Longrightarrow>
   ns ! nat (ri + n - 1) = lst \<Longrightarrow> ri + n_max \<le> int (length ns) \<Longrightarrow>
   ri + n \<le> int i \<Longrightarrow> int i < ri + n_max \<Longrightarrow>
     Q (forward_pass step ri n_max n lst ns ! i)
     \<and> R (forward_pass step ri n_max n lst ns ! (i - 1)) (forward_pass step ri n_max n lst ns ! i)"
proof (induction step ri n_max n lst ns rule: forward_pass.induct)
  case (1 step ri n_max n lst ns)
  have lt: "n < n_max" using "1.prems" by simp
  define ns' where "ns' = ns[nat (ri + n) := step lst]"
  have unf: "forward_pass step ri n_max n lst ns = forward_pass step ri n_max (n + 1) (step lst) ns'"
    using lt by (subst forward_pass.simps) (simp add: Let_def ns'_def)
  have len: "nat (ri + n) < length ns" using "1.prems" by simp
  have st: "Q (step lst)" "R lst (step lst)" using "1.prems"(1,2) by simp_all
  show ?case
  proof (cases "int i = ri + n")
    case True
    then have i: "i = nat (ri + n)" by simp
    have a: "forward_pass step ri n_max (n + 1) (step lst) ns' ! i = ns' ! i"
      using "1.prems" i by (intro forward_pass_below) simp_all
    have b: "forward_pass step ri n_max (n + 1) (step lst) ns' ! (i - 1) = ns' ! (i - 1)"
      using "1.prems" i by (intro forward_pass_below) simp_all
    have c: "ns' ! i = step lst" using len i by (simp add: ns'_def)
    have "i - 1 = nat (ri + n - 1)" using i "1.prems"(3) by simp
    moreover have "i - 1 \<noteq> nat (ri + n)" using i "1.prems"(3) by simp
    ultimately have d: "ns' ! (i - 1) = lst" using "1.prems"(4) by (simp add: ns'_def)
    show ?thesis unfolding unf a b c d using st by simp
  next
    case False
    then have ge: "ri + (n + 1) \<le> int i" using "1.prems" by simp
    have idx: "ns' ! nat (ri + (n + 1) - 1) = step lst"
      using len by (simp add: ns'_def)
    have "Q (forward_pass step ri n_max (n + 1) (step lst) ns' ! i)
          \<and> R (forward_pass step ri n_max (n + 1) (step lst) ns' ! (i - 1))
               (forward_pass step ri n_max (n + 1) (step lst) ns' ! i)"
    proof (rule "1.IH"[OF lt refl, folded ns'_def])
      show "Q x \<Longrightarrow> Q (step x) \<and> R x (step x)" for x by (rule "1.prems"(1))
    qed (use st "1.prems" ge idx in \<open>simp_all add: ns'_def\<close>)
    then show ?thesis unfolding unf .
  qed
qed

lemma backward_pass_chain:
  "(\<And>x. Q x \<Longrightarrow> Q (step x) \<and> R (step x) x) \<Longrightarrow> Q lst \<Longrightarrow> 0 \<le> ri + n_min \<Longrightarrow>
   ns ! nat (ri + n + 1) = lst \<Longrightarrow> ri + n + 1 < int (length ns) \<Longrightarrow>
   ri + n_min \<le> int i \<Longrightarrow> int i \<le> ri + n \<Longrightarrow>
     Q (backward_pass step ri n_min n lst ns ! i)
     \<and> R (backward_pass step ri n_min n lst ns ! i) (backward_pass step ri n_min n lst ns ! (i + 1))"
proof (induction step ri n_min n lst ns rule: backward_pass.induct)
  case (1 step ri n_min n lst ns)
  have ge: "n \<ge> n_min" using "1.prems" by simp
  define ns' where "ns' = ns[nat (ri + n) := step lst]"
  have unf: "backward_pass step ri n_min n lst ns = backward_pass step ri n_min (n - 1) (step lst) ns'"
    using ge by (subst backward_pass.simps) (simp add: Let_def ns'_def)
  have nn: "0 \<le> ri + n" using ge "1.prems"(3) by simp
  have len: "nat (ri + n) < length ns" using "1.prems" nn by simp
  have st: "Q (step lst)" "R (step lst) lst" using "1.prems"(1,2) by simp_all
  show ?case
  proof (cases "int i = ri + n")
    case True
    then have i: "i = nat (ri + n)" by simp
    have a: "backward_pass step ri n_min (n - 1) (step lst) ns' ! i = ns' ! i"
      using "1.prems" True by (intro backward_pass_above) simp_all
    have b: "backward_pass step ri n_min (n - 1) (step lst) ns' ! (i + 1) = ns' ! (i + 1)"
      using "1.prems" True by (intro backward_pass_above) simp_all
    have c: "ns' ! i = step lst" using len i by (simp add: ns'_def)
    have "i + 1 = nat (ri + n + 1)" using i nn by simp
    moreover have "i + 1 \<noteq> nat (ri + n)" using i by simp
    ultimately have d: "ns' ! (i + 1) = lst" using "1.prems"(4) by (simp add: ns'_def)
    show ?thesis unfolding unf a b c d using st by simp
  next
    case False
    then have le: "int i \<le> ri + (n - 1)" using "1.prems" by simp
    have idx: "ns' ! nat (ri + (n - 1) + 1) = step lst"
      using len by (simp add: ns'_def)
    have "Q (backward_pass step ri n_min (n - 1) (step lst) ns' ! i)
          \<and> R (backward_pass step ri n_min (n - 1) (step lst) ns' ! i)
               (backward_pass step ri n_min (n - 1) (step lst) ns' ! (i + 1))"
    proof (rule "1.IH"[OF ge refl, folded ns'_def])
      show "Q x \<Longrightarrow> Q (step x) \<and> R (step x) x" for x by (rule "1.prems"(1))
    qed (use st "1.prems" le idx in \<open>simp_all add: ns'_def\<close>)
    then show ?thesis unfolding unf .
  qed
qed

section \<open>Properties of scale generation and of \<open>adjustParams\<close>\<close>

lemma fromAffine_result:
  assumes ri: "0 \<le> ri" "ri < N"
    and F: "\<And>r s zr zs x. P (forward_step A bf r s zr zs x)"
    and B: "\<And>r s zr zs x. P (backward_step A bf r s zr zs x)"
  shows "\<exists>sc. fromAffine fcs A bf N ri = Inr sc \<and> length (nodes sc) = nat N
            \<and> base_freq sc = bf
            \<and> nodes sc ! nat ri = Node0\<lparr>natural_coord := \<lparr>ix = 0, iy = 0\<rparr>,
                         tuning_coord := applyi A \<lparr>ix = 0, iy = 0\<rparr>, pitch := bf\<rparr>
            \<and> (\<forall>i < nat N. i \<noteq> nat ri \<longrightarrow> P (nodes sc ! i))"
proof -
  obtain r s where rs: "fcs (A\<lparr>tx := 0, ty := 0\<rparr>) = (r, s)"
    by (cases "fcs (A\<lparr>tx := 0, ty := 0\<rparr>)")
  define M where "M = A\<lparr>tx := 0, ty := 0\<rparr>"
  define rn where "rn = Node0\<lparr>natural_coord := \<lparr>ix = 0, iy = 0\<rparr>,
                         tuning_coord := applyi A \<lparr>ix = 0, iy = 0\<rparr>, pitch := bf\<rparr>"
  define fs where "fs = forward_step A bf r s (applyi M r) (applyi M s)"
  define bs where "bs = backward_step A bf r s (applyi M r) (applyi M s)"
  define ns1 where "ns1 = (replicate (nat N) Node0)[nat ri := rn]"
  define ns2 where "ns2 = forward_pass fs ri (N - ri) 1 rn ns1"
  define ns3 where "ns3 = backward_pass bs ri (- ri) (- 1) rn ns2"
  have len1: "length ns1 = nat N" by (simp add: ns1_def)
  have len2: "length ns2 = nat N" by (simp add: ns2_def forward_pass_length len1)
  have len3: "length ns3 = nat N" by (simp add: ns3_def backward_pass_length len2)
  have eq: "fromAffine fcs A bf N ri = Inr \<lparr>nodes = ns3, base_freq = bf, root_idx = ri\<rparr>"
    using ri rs
    by (simp add: fromAffine_def recalcWithAffine_def newScale_def initNodes_def Let_def
        ns3_def ns2_def ns1_def fs_def bs_def rn_def M_def)
  have root: "ns3 ! nat ri = rn"
  proof -
    have "ns3 ! nat ri = ns2 ! nat ri"
      unfolding ns3_def using ri by (intro backward_pass_above) simp_all
    also have "\<dots> = ns1 ! nat ri"
      unfolding ns2_def using ri by (intro forward_pass_below) simp_all
    also have "\<dots> = rn" using ri by (simp add: ns1_def)
    finally show ?thesis .
  qed
  have others: "P (ns3 ! i)" if i: "i < nat N" "i \<noteq> nat ri" for i
  proof (cases "i < nat ri")
    case True
    have "P (backward_pass bs ri (- ri) (- 1) rn ns2 ! i)"
    proof (rule backward_pass_written)
      show "P (bs x)" for x unfolding bs_def by (rule B)
    qed (use True i ri len2 in simp_all)
    then show ?thesis by (simp add: ns3_def)
  next
    case False
    with i have gt: "nat ri < i" by simp
    have "ns3 ! i = ns2 ! i"
      unfolding ns3_def using ri gt by (intro backward_pass_above) simp_all
    moreover have "P (forward_pass fs ri (N - ri) 1 rn ns1 ! i)"
    proof (rule forward_pass_written)
      show "P (fs x)" for x unfolding fs_def by (rule F)
    qed (use gt i ri len1 in simp_all)
    ultimately show ?thesis by (simp add: ns2_def)
  qed
  show ?thesis
    using eq len3 root others by (simp add: rn_def)
qed

lemma forward_step_pitch:
  "pitch (forward_step A bf r s zr zs x) = bf * 2 powr dx (tuning_coord (forward_step A bf r s zr zs x))"
  by (simp add: forward_step_def Let_def)

lemma backward_step_pitch:
  "pitch (backward_step A bf r s zr zs x) = bf * 2 powr dx (tuning_coord (backward_step A bf r s zr zs x))"
  by (simp add: backward_step_def Let_def)

lemma forward_step_tuning:
  "tuning_coord (forward_step A bf r s zr zs x) = applyi A (natural_coord (forward_step A bf r s zr zs x))"
  by (simp add: forward_step_def Let_def)

lemma backward_step_tuning:
  "tuning_coord (backward_step A bf r s zr zs x) = applyi A (natural_coord (backward_step A bf r s zr zs x))"
  by (simp add: backward_step_def Let_def)

lemma updateVectors_frame:
  "mos_a (updateVectors m) = mos_a m" "mos_b (updateVectors m) = mos_b m"
  "mos_n (updateVectors m) = mos_n m" "mos_a0 (updateVectors m) = mos_a0 m"
  "mos_b0 (updateVectors m) = mos_b0 m" "mos_n0 (updateVectors m) = mos_n0 m"
  "mos_mode (updateVectors m) = mos_mode m" "mos_repetitions (updateVectors m) = mos_repetitions m"
  "mos_depth (updateVectors m) = mos_depth m" "mos_equave (updateVectors m) = mos_equave m"
  "mos_period (updateVectors m) = mos_period m" "mos_generator (updateVectors m) = mos_generator m"
  "path (updateVectors m) = path m" "impliedAffine (updateVectors m) = impliedAffine m"
  "mosTransform (updateVectors m) = mosTransform m" "v_gen (updateVectors m) = v_gen m"
  "base_scale (updateVectors m) = base_scale m"
  by (simp_all add: updateVectors_def Let_def)

lemma sdiv_pos: "0 \<le> a \<Longrightarrow> 0 < r \<Longrightarrow> a sdiv r = a div (r::int)"
  by (cases "a = 0") (simp_all add: signed_divide_int_def sgn_if)

lemma fromAffine_returns:
  "0 \<le> ri \<Longrightarrow> ri < N \<Longrightarrow> \<exists>sc. fromAffine fcs A bf N ri = Inr sc"
  using fromAffine_result[of ri N "\<lambda>_. True" A bf fcs] by blast

lemma adjustParams_valid:
  assumes a: "0 < a" and b: "0 < b" and g: "0 \<le> g" "g \<le> 1"
  shows "\<exists>mos. adjustParams ext a b m e g this = Some (Inr mos)
    \<and> mos_a mos = a \<and> mos_b mos = b \<and> mos_n mos = a + b
    \<and> mos_repetitions mos = gcd a b
    \<and> mos_a0 mos = a div gcd a b \<and> mos_b0 mos = b div gcd a b
    \<and> mos_n0 mos = a div gcd a b + b div gcd a b
    \<and> mos_mode mos = m \<and> mos_equave mos = e
    \<and> mos_period mos = e / real_of_int (gcd a b) \<and> mos_generator mos = g
    \<and> calcPath (mos_a0 mos) (mos_b0 mos) = Some (path mos)
    \<and> applyPath (path mos) \<lparr>ix = 1, iy = 1\<rparr> = \<lparr>ix = mos_a0 mos, iy = mos_b0 mos\<rparr>
    \<and> v_gen mos = applyPath (path mos) \<lparr>ix = 1, iy = 0\<rparr>
    \<and> impliedAffine mos = calcImpliedAffine (solve ext) mos
    \<and> fromAffine (findClosestWithinStrip ext) (impliedAffine mos) 1 (a + b + 1) 0
          = Inr (base_scale mos)"
proof -
  define r where "r = gcd a b"
  have rpos: "0 < r" using a by (simp add: r_def)
  have gs: "gcd_src a b = r" using a b by (simp add: gcd_src_eq_gcd r_def)
  define a0 where "a0 = a div r"
  define b0 where "b0 = b div r"
  have sa: "a sdiv r = a0" using a rpos by (simp add: sdiv_pos a0_def)
  have sb: "b sdiv r = b0" using b rpos by (simp add: sdiv_pos b0_def)
  have "r dvd a" "r dvd b" by (simp_all add: r_def)
  then have a0pos: "1 \<le> a0" and b0pos: "1 \<le> b0"
    using a b rpos by (auto simp: a0_def b0_def elim!: dvdE simp: zero_less_mult_iff)
  have cop: "coprime a0 b0"
    unfolding a0_def b0_def r_def using a by (intro div_gcd_coprime) simp
  obtain p where p: "calcPath a0 b0 = Some p" "applyPath_loop p 1 1 = \<lparr>ix = a0, iy = b0\<rparr>"
    using calcPath_loop_terminates[OF a0pos b0pos cop, of "[]"] by (auto simp: calcPath_def)
  define m4 where "m4 = this\<lparr>mos_a := a, mos_b := b, mos_n := a + b, mos_a0 := a0, mos_b0 := b0,
                       mos_n0 := a0 + b0, mos_mode := m, mos_repetitions := r,
                       mos_equave := e, mos_period := e / real_of_int r, mos_generator := g,
                       path := p, mos_depth := int (length p),
                       v_gen := applyPath p \<lparr>ix = 1, iy = 0\<rparr>\<rparr>"
  define m6 where "m6 = updateVectors (m4\<lparr>impliedAffine := calcImpliedAffine (solve ext) m4\<rparr>)"
  obtain sc where sc: "fromAffine (findClosestWithinStrip ext) (impliedAffine m6) 1 (a + b + 1) 0 = Inr sc"
    using fromAffine_returns[of 0 "a + b + 1"] a b by fastforce
  define mos where "mos = m6\<lparr>base_scale := sc, mosTransform :=
        linearFromTwoDots ext \<lparr>ix = 1, iy = 0\<rparr> \<lparr>ix = 1, iy = 1\<rparr> (v_gen m6) \<lparr>ix = mos_a0 m6, iy = mos_b0 m6\<rparr>\<rparr>"
  have res: "adjustParams ext a b m e g this = Some (Inr mos)"
    using a b g sc
    by (simp add: adjustParams_def gs sa sb p(1) Let_def m6_def[symmetric] m4_def[symmetric] mos_def)
  have ia: "impliedAffine mos = calcImpliedAffine (solve ext) m4"
    by (simp add: mos_def m6_def updateVectors_frame)
  have ia': "calcImpliedAffine (solve ext) mos = calcImpliedAffine (solve ext) m4"
    by (simp add: calcImpliedAffine_def mos_def m6_def updateVectors_frame)
  have fields: "mos_a mos = a" "mos_b mos = b" "mos_n mos = a + b" "mos_repetitions mos = r"
    "mos_a0 mos = a0" "mos_b0 mos = b0" "mos_n0 mos = a0 + b0" "mos_mode mos = m"
    "mos_equave mos = e" "mos_period mos = e / real_of_int r" "mos_generator mos = g"
    "path mos = p" "v_gen mos = applyPath p \<lparr>ix = 1, iy = 0\<rparr>" "base_scale mos = sc"
    by (simp_all add: mos_def m6_def updateVectors_frame m4_def)
  have "impliedAffine mos = impliedAffine m6" by (simp add: mos_def)
  with sc have sc': "fromAffine (findClosestWithinStrip ext) (impliedAffine mos) 1 (a + b + 1) 0 = Inr (base_scale mos)"
    by (simp add: fields)
  show ?thesis
    apply (rule exI[of _ mos])
    using res sc' ia ia' p
    by (simp add: fields applyPath_def a0_def b0_def r_def)
qed

section \<open>Properties of retuning\<close>

lemma recalcOnRetune_frame:
  "impliedAffine (recalcOnRetuneUsingAffine A m) = A"
  "base_scale (recalcOnRetuneUsingAffine A m) = retuneWithAffine A (base_scale m)"
  by (simp_all add: recalcOnRetuneUsingAffine_def Let_def updateVectors_frame)

lemma retuneWithAffine_natural:
  "map natural_coord (nodes (retuneWithAffine A sc)) = map natural_coord (nodes sc)"
  by (simp add: retuneWithAffine_def Let_def comp_def)

section \<open>The implied transform and the strip\<close>

lemma implied_strip_iff:
  assumes n0: "0 < mos_n0 m" "mos_n0 m = mos_a0 m + mos_b0 m"
    and det: "ix (v_gen m) * mos_b0 m - iy (v_gen m) * mos_a0 m = 1"
    and ex: "impliedAffineSolved slv m"
  shows "(0 \<le> dy (applyi (calcImpliedAffine slv m) v) \<and> dy (applyi (calcImpliedAffine slv m) v) < 1)
       = (0 \<le> ix v * mos_b0 m - iy v * mos_a0 m + mos_mode m
          \<and> ix v * mos_b0 m - iy v * mos_a0 m + mos_mode m < mos_n0 m)"
proof -
  define q where "q = 0.5 / real_of_int (mos_n0 m)"
  define M where "M = threeDotsMatrix
                \<lparr>dx = 0, dy = 0\<rparr>
                \<lparr>dx = real_of_int (ix (v_gen m)), dy = real_of_int (iy (v_gen m))\<rparr>
                \<lparr>dx = real_of_int (mos_a0 m), dy = real_of_int (mos_b0 m)\<rparr>"
  define b where "b = threeDotsRhs
                \<lparr>dx = 0, dy = q * real_of_int (2 * mos_mode m + 1)\<rparr>
                \<lparr>dx = mos_generator m * mos_period m, dy = q * real_of_int (2 * mos_mode m + 3)\<rparr>
                \<lparr>dx = mos_period m, dy = q * real_of_int (2 * mos_mode m + 1)\<rparr>"
  obtain s0 s1 s2 s3 s4 s5 where sol: "slv M b = (s0, s1, s2, s3, s4, s5)"
    by (cases "slv M b") auto
  define vx where "vx = real_of_int (ix (v_gen m))"
  define vy where "vy = real_of_int (iy (v_gen m))"
  define a0 where "a0 = real_of_int (mos_a0 m)"
  define b0 where "b0 = real_of_int (mos_b0 m)"
  define md where "md = real_of_int (mos_mode m)"
  have "solves M b (slv M b)"
    using ex by (simp add: impliedAffineSolved_def Let_def M_def b_def q_def)
  then have "solves M b (s0, s1, s2, s3, s4, s5)"
    by (simp add: sol)
  then have e1: "s5 = q * (2 * md + 1)"
    and e2: "vx * s3 + vy * s4 + s5 = q * (2 * md + 3)"
    and e3: "a0 * s3 + b0 * s4 + s5 = q * (2 * md + 1)"
    by (simp_all add: solves_def M_def b_def threeDotsMatrix_def threeDotsRhs_def
        vx_def vy_def a0_def b0_def md_def)
  have "calcImpliedAffine slv m
          = (case slv M b of (s0, s1, s2, s3, s4, s5) \<Rightarrow>
               \<lparr>ta = s0, tb = s1, tc = s3, td = s4, tx = s2, ty = s5\<rparr>)"
    by (simp add: calcImpliedAffine_def affineFromThreeDots_def Let_def M_def b_def q_def)
  then have A: "calcImpliedAffine slv m = \<lparr>ta = s0, tb = s1, tc = s3, td = s4, tx = s2, ty = s5\<rparr>"
    by (simp add: sol)
  have detr: "vx * b0 - vy * a0 = 1"
  proof -
    have "real_of_int (ix (v_gen m) * mos_b0 m - iy (v_gen m) * mos_a0 m) = 1"
      using det by simp
    then show ?thesis by (simp add: vx_def vy_def a0_def b0_def)
  qed
  have h2: "vx * s3 + vy * s4 = 2 * q" using e1 e2 by (simp add: algebra_simps)
  have h3: "a0 * s3 + b0 * s4 = 0" using e1 e3 by simp
  have "s3 = s3 * (vx * b0 - vy * a0)" using detr by simp
  also have "\<dots> = b0 * (vx * s3 + vy * s4) - vy * (a0 * s3 + b0 * s4)"
    by (simp add: algebra_simps)
  also have "\<dots> = 2 * q * b0" using h2 h3 by simp
  finally have s3: "s3 = 2 * q * b0" .
  have "s4 = s4 * (vx * b0 - vy * a0)" using detr by simp
  also have "\<dots> = vx * (a0 * s3 + b0 * s4) - a0 * (vx * s3 + vy * s4)"
    by (simp add: algebra_simps)
  also have "\<dots> = - (2 * q * a0)" using h2 h3 by simp
  finally have s4: "s4 = - (2 * q * a0)" .
  define D where "D = ix v * mos_b0 m - iy v * mos_a0 m + mos_mode m"
  have n0r: "0 < real_of_int (mos_n0 m)" using n0(1) by simp
  have "dy (applyi (calcImpliedAffine slv m) v)
          = s3 * real_of_int (ix v) + s4 * real_of_int (iy v) + s5"
    by (simp add: A applyi_def applyd_def toVector2d_def)
  also have "\<dots> = q * (2 * (real_of_int (ix v) * b0 - real_of_int (iy v) * a0 + md) + 1)"
    by (simp add: s3 s4 e1 algebra_simps)
  also have "\<dots> = q * real_of_int (2 * D + 1)"
    by (simp add: D_def a0_def b0_def md_def)
  also have "\<dots> = real_of_int (2 * D + 1) / real_of_int (2 * mos_n0 m)"
    by (simp add: q_def)
  finally have y: "dy (applyi (calcImpliedAffine slv m) v)
          = real_of_int (2 * D + 1) / real_of_int (2 * mos_n0 m)" .
  have pos: "0 < real_of_int (2 * mos_n0 m)" using n0(1) by simp
  have lo: "(0 \<le> real_of_int (2 * D + 1) / real_of_int (2 * mos_n0 m)) = (0 \<le> D)"
  proof -
    have "(0 \<le> real_of_int (2 * D + 1) / real_of_int (2 * mos_n0 m)) = (0 \<le> real_of_int (2 * D + 1))"
      using pos by (simp only: zero_le_divide_iff) auto
    also have "\<dots> = (0 \<le> 2 * D + 1)" by (simp only: of_int_0_le_iff)
    also have "\<dots> = (0 \<le> D)" by presburger
    finally show ?thesis .
  qed
  have hi: "(real_of_int (2 * D + 1) / real_of_int (2 * mos_n0 m) < 1) = (D < mos_n0 m)"
  proof -
    have "(real_of_int (2 * D + 1) / real_of_int (2 * mos_n0 m) < 1)
            = (real_of_int (2 * D + 1) < real_of_int (2 * mos_n0 m))"
      using pos by (simp only: divide_less_eq_1_pos)
    also have "\<dots> = (2 * D + 1 < 2 * mos_n0 m)" by (simp only: of_int_less_iff)
    also have "\<dots> = (D < mos_n0 m)" by presburger
    finally show ?thesis .
  qed
  show ?thesis
    unfolding y lo hi by (simp add: D_def)
qed


lemma v_gen_det:
  assumes "applyPath p \<lparr>ix = 1, iy = 1\<rparr> = \<lparr>ix = a0, iy = b0\<rparr>"
  shows "ix (applyPath p \<lparr>ix = 1, iy = 0\<rparr>) * b0 - iy (applyPath p \<lparr>ix = 1, iy = 0\<rparr>) * a0 = 1"
proof -
  have "ix (applyPath_loop p 1 0) * iy (applyPath_loop p 1 1)
          - iy (applyPath_loop p 1 0) * ix (applyPath_loop p 1 1) = 1 * 1 - 0 * 1"
    by (rule applyPath_loop_det)
  moreover have "applyPath_loop p 1 1 = \<lparr>ix = a0, iy = b0\<rparr>"
    using assms by (simp add: applyPath_def)
  ultimately show ?thesis by (simp add: applyPath_def)
qed

text \<open>
  With more than one period in the equave the algebraic test and the strip part company:
  for \<open>a = b = 2\<close> and \<open>mode = 1\<close> the lattice point \<open>(0, 1)\<close> is mapped into the strip while
  \<open>nodeInScale\<close> rejects it.
\<close>

lemma strip_and_test_differ_when_periods_repeat:
  "\<forall>ext this. \<exists>mos. adjustParams ext 2 2 1 1.0 0.5 this = Some (Inr mos)
      \<and> (impliedAffineSolved (solve ext) mos \<longrightarrow>
            0 \<le> dy (applyi (impliedAffine mos) \<lparr>ix = 0, iy = 1\<rparr>)
            \<and> dy (applyi (impliedAffine mos) \<lparr>ix = 0, iy = 1\<rparr>) < 1
            \<and> nodeInScale mos \<lparr>ix = 0, iy = 1\<rparr> = False)"
proof (intro allI)
  fix ext this
  have g22: "gcd (2::int) 2 = 2" by simp
  obtain mos where mos: "adjustParams ext 2 2 1 1.0 0.5 this = Some (Inr mos)"
    "mos_a mos = 2" "mos_b mos = 2" "mos_n mos = 2 + 2"
    "mos_a0 mos = 2 div gcd 2 2" "mos_b0 mos = 2 div gcd 2 2"
    "mos_n0 mos = 2 div gcd 2 2 + 2 div gcd 2 2" "mos_mode mos = 1"
    "applyPath (path mos) \<lparr>ix = 1, iy = 1\<rparr> = \<lparr>ix = mos_a0 mos, iy = mos_b0 mos\<rparr>"
    "v_gen mos = applyPath (path mos) \<lparr>ix = 1, iy = 0\<rparr>"
    "impliedAffine mos = calcImpliedAffine (solve ext) mos"
    using adjustParams_valid[of 2 2 "0.5" ext 1 "1.0" this] by auto
  have f: "mos_a0 mos = 1" "mos_b0 mos = 1" "mos_n0 mos = 2"
    using mos(5,6,7) by (simp_all add: g22)
  have det: "ix (v_gen mos) * mos_b0 mos - iy (v_gen mos) * mos_a0 mos = 1"
    unfolding mos(10) by (rule v_gen_det[OF mos(9)])
  have n0: "0 < mos_n0 mos" "mos_n0 mos = mos_a0 mos + mos_b0 mos"
    using f by simp_all
  have "0 \<le> dy (applyi (impliedAffine mos) \<lparr>ix = 0, iy = 1\<rparr>)
            \<and> dy (applyi (impliedAffine mos) \<lparr>ix = 0, iy = 1\<rparr>) < 1"
    if ex: "impliedAffineSolved (solve ext) mos"
    unfolding mos(11) implied_strip_iff[OF n0 det ex] by (simp add: f mos(8))
  moreover have "nodeInScale mos \<lparr>ix = 0, iy = 1\<rparr> = False"
    by (simp add: nodeInScale_def Let_def mos(2,3,4,8))
  ultimately show "\<exists>mos. adjustParams ext 2 2 1 1.0 0.5 this = Some (Inr mos)
      \<and> (impliedAffineSolved (solve ext) mos \<longrightarrow>
            0 \<le> dy (applyi (impliedAffine mos) \<lparr>ix = 0, iy = 1\<rparr>)
            \<and> dy (applyi (impliedAffine mos) \<lparr>ix = 0, iy = 1\<rparr>) < 1
            \<and> nodeInScale mos \<lparr>ix = 0, iy = 1\<rparr> = False)"
    using mos(1) by blast
qed

section \<open>The degree queries within their range\<close>

text \<open>
  For \<open>n > 0\<close> and \<open>v.x + v.y \<ge> - 256 * n\<close> the biased truncating operations of
  \<open>nodeScaleDegree\<close> and \<open>nodeEquaveNr\<close> are the non-negative residue and the floored
  quotient.
\<close>

lemma degree_and_equave_in_range:
  assumes n: "0 < mos_n m" and lo: "- (256 * mos_n m) \<le> ix v + iy v"
  shows "nodeScaleDegree m v = Inr ((ix v + iy v) mod mos_n m)"
    and "nodeEquaveNr m v = Inr ((ix v + iy v) div mos_n m)"
proof -
  define k where "k = ix v + iy v + 256 * mos_n m"
  have k: "0 \<le> k" using lo by (simp add: k_def)
  have sm: "k smod mos_n m = k mod mos_n m"
    using k n by (cases "k = 0") (simp_all add: signed_modulo_int_def sgn_if)
  have sd: "k sdiv mos_n m = k div mos_n m"
    using k n by (simp add: sdiv_pos)
  have "k mod mos_n m = (ix v + iy v) mod mos_n m"
    by (simp add: k_def)
  moreover have "k div mos_n m = (ix v + iy v) div mos_n m + 256"
    using n by (simp add: k_def)
  ultimately show "nodeScaleDegree m v = Inr ((ix v + iy v) mod mos_n m)"
    and "nodeEquaveNr m v = Inr ((ix v + iy v) div mos_n m)"
    using n sm sd by (simp_all add: nodeScaleDegree_def nodeEquaveNr_def k_def)
qed

section \<open>The traversal of the strip in exact arithmetic\<close>

text \<open>
  One turn of either loop keeps a node inside the strip and moves it strictly in \<open>x\<close>,
  through each of its three branches, when the image of \<open>r\<close> has \<open>0 < y \<le> 1\<close>, the image
  of \<open>s\<close> has \<open>- 1 \<le> y < 0\<close>, and both images have \<open>x > 0\<close>: the bounds of \<open>stripPair\<close>.
  The loops then carry this from the root to every node.

  The lemmas of this section are properties of the loops over the reals. They are not
  properties of the values the C++ stores: the C++ tests the rounded sum
  \<open>last.tuning_coord.y + zr.y\<close> and then stores \<open>A * natural_coord\<close>, rounded on its own, so a
  stored \<open>y\<close> can be \<open>1.0\<close> where the exact value is below 1, and two stored \<open>x\<close> can
  coincide where the exact values differ. With the step pair \<open>((1,0), (0,1))\<close>, the
  transform \<open>(a, b, c, d, tx, ty) = (0.5, 0.25, 0.1, -0.6, 0, 0.7)\<close> and four nodes from
  root 0, the doubles \<open>0.1 * 3 + 0.7\<close> give the stored \<open>y = 1.0\<close> at the node \<open>(3, 0)\<close>; with
  \<open>(2^-60, 1, 0.5, -0.5, 0, 0.25)\<close> and five nodes, the nodes \<open>(1, 1)\<close> and \<open>(2, 1)\<close> both
  store \<open>x = 1.0\<close>. The strictness of the order and the open end of the strip hold of the
  exact values only.
\<close>

lemma forward_step_in_strip:
  assumes t: "tuning_coord x = applyi A (natural_coord x)"
    and y: "0 \<le> dy (tuning_coord x)" "dy (tuning_coord x) < 1"
    and zr: "zr = applyi (A\<lparr>tx := 0, ty := 0\<rparr>) r" "0 < dy zr" "dy zr \<le> 1" "0 < dx zr"
    and zs: "zs = applyi (A\<lparr>tx := 0, ty := 0\<rparr>) s" "dy zs < 0" "- 1 \<le> dy zs" "0 < dx zs"
  shows "0 \<le> dy (tuning_coord (forward_step A bf r s zr zs x))"
    and "dy (tuning_coord (forward_step A bf r s zr zs x)) < 1"
    and "dx (tuning_coord x) < dx (tuning_coord (forward_step A bf r s zr zs x))"
  using assms
  by (auto simp: forward_step_def Let_def applyi_def applyd_def toVector2d_def addi_def
      algebra_simps)

lemma backward_step_in_strip:
  assumes t: "tuning_coord x = applyi A (natural_coord x)"
    and y: "0 \<le> dy (tuning_coord x)" "dy (tuning_coord x) < 1"
    and zr: "zr = applyi (A\<lparr>tx := 0, ty := 0\<rparr>) r" "0 < dy zr" "dy zr \<le> 1" "0 < dx zr"
    and zs: "zs = applyi (A\<lparr>tx := 0, ty := 0\<rparr>) s" "dy zs < 0" "- 1 \<le> dy zs" "0 < dx zs"
  shows "0 \<le> dy (tuning_coord (backward_step A bf r s zr zs x))"
    and "dy (tuning_coord (backward_step A bf r s zr zs x)) < 1"
    and "dx (tuning_coord (backward_step A bf r s zr zs x)) < dx (tuning_coord x)"
  using assms
  by (auto simp: backward_step_def Let_def applyi_def applyd_def toVector2d_def addi_def subi_def
      algebra_simps)

lemma consecutive_less:
  fixes f :: "nat \<Rightarrow> real"
  assumes "\<And>i. Suc i < n \<Longrightarrow> f i < f (Suc i)"
  shows "i < j \<Longrightarrow> j < n \<Longrightarrow> f i < f j"
proof (induction j)
  case 0
  then show ?case by simp
next
  case (Suc j)
  show ?case
  proof (cases "i = j")
    case True
    then show ?thesis using assms[of j] Suc.prems by simp
  next
    case False
    then have "f i < f j" using Suc by simp
    also have "f j < f (Suc j)" using assms[of j] Suc.prems by simp
    finally show ?thesis .
  qed
qed

lemma fromAffine_strip:
  assumes ri: "0 \<le> ri" "ri < N" and ty: "0 \<le> ty A" "ty A < 1"
    and sp: "stripPair (A\<lparr>tx := 0, ty := 0\<rparr>) (fcs (A\<lparr>tx := 0, ty := 0\<rparr>))"
  shows "\<exists>sc. fromAffine fcs A bf N ri = Inr sc \<and> length (nodes sc) = nat N
           \<and> (\<forall>i < nat N. tuning_coord (nodes sc ! i) = applyi A (natural_coord (nodes sc ! i))
                  \<and> 0 \<le> dy (tuning_coord (nodes sc ! i)) \<and> dy (tuning_coord (nodes sc ! i)) < 1)
           \<and> (\<forall>i. Suc i < nat N \<longrightarrow>
                  dx (tuning_coord (nodes sc ! i)) < dx (tuning_coord (nodes sc ! Suc i)))"
proof -
  define M where "M = A\<lparr>tx := 0, ty := 0\<rparr>"
  obtain r s where rs: "fcs M = (r, s)" by (cases "fcs M")
  define zr where "zr = applyi M r"
  define zs where "zs = applyi M s"
  have b: "0 < dy zr" "dy zr \<le> 1" "- 1 \<le> dy zs" "dy zs < 0" "0 < dx zr" "0 < dx zs"
    using sp by (simp_all add: stripPair_def M_def[symmetric] rs zr_def zs_def)
  define rn where "rn = Node0\<lparr>natural_coord := \<lparr>ix = 0, iy = 0\<rparr>,
                         tuning_coord := applyi A \<lparr>ix = 0, iy = 0\<rparr>, pitch := bf\<rparr>"
  define fs where "fs = forward_step A bf r s zr zs"
  define bs where "bs = backward_step A bf r s zr zs"
  define ns1 where "ns1 = (replicate (nat N) Node0)[nat ri := rn]"
  define ns2 where "ns2 = forward_pass fs ri (N - ri) 1 rn ns1"
  define ns3 where "ns3 = backward_pass bs ri (- ri) (- 1) rn ns2"
  define Q where "Q = (\<lambda>x::Node. tuning_coord x = applyi A (natural_coord x)
                         \<and> 0 \<le> dy (tuning_coord x) \<and> dy (tuning_coord x) < 1)"
  define R where "R = (\<lambda>(x::Node) (y::Node). dx (tuning_coord x) < dx (tuning_coord y))"
  have len1: "length ns1 = nat N" by (simp add: ns1_def)
  have len2: "length ns2 = nat N" by (simp add: ns2_def forward_pass_length len1)
  have len3: "length ns3 = nat N" by (simp add: ns3_def backward_pass_length len2)
  have eq: "fromAffine fcs A bf N ri = Inr \<lparr>nodes = ns3, base_freq = bf, root_idx = ri\<rparr>"
    using ri rs
    by (simp add: fromAffine_def recalcWithAffine_def newScale_def initNodes_def Let_def
        ns3_def ns2_def ns1_def fs_def bs_def rn_def M_def zr_def zs_def)
  have Qrn: "Q rn"
    using ty by (simp add: Q_def rn_def applyi_def applyd_def toVector2d_def)
  have zr_eq: "zr = applyi (A\<lparr>tx := 0, ty := 0\<rparr>) r" by (simp add: zr_def M_def)
  have zs_eq: "zs = applyi (A\<lparr>tx := 0, ty := 0\<rparr>) s" by (simp add: zs_def M_def)
  have F: "Q (fs x) \<and> R x (fs x)" if "Q x" for x
  proof -
    have t: "tuning_coord x = applyi A (natural_coord x)"
      and y: "0 \<le> dy (tuning_coord x)" "dy (tuning_coord x) < 1"
      using that unfolding Q_def by blast+
    note st = forward_step_in_strip[OF t y zr_eq b(1,2,5) zs_eq b(4,3,6), of bf]
    show ?thesis
      unfolding Q_def R_def fs_def using st forward_step_tuning[of A bf r s zr zs x] by blast
  qed
  have B: "Q (bs x) \<and> R (bs x) x" if "Q x" for x
  proof -
    have t: "tuning_coord x = applyi A (natural_coord x)"
      and y: "0 \<le> dy (tuning_coord x)" "dy (tuning_coord x) < 1"
      using that unfolding Q_def by blast+
    note st = backward_step_in_strip[OF t y zr_eq b(1,2,5) zs_eq b(4,3,6), of bf]
    show ?thesis
      unfolding Q_def R_def bs_def using st backward_step_tuning[of A bf r s zr zs x] by blast
  qed
  have root1: "ns1 ! nat ri = rn" using ri by (simp add: ns1_def)
  have root2: "ns2 ! nat ri = rn"
    unfolding ns2_def using ri root1 by (subst forward_pass_below) simp_all
  have keep: "ns3 ! i = ns2 ! i" if "nat ri \<le> i" for i
    unfolding ns3_def using ri that by (intro backward_pass_above) simp_all
  have fwd: "Q (ns2 ! i) \<and> R (ns2 ! (i - 1)) (ns2 ! i)" if "nat ri < i" "i < nat N" for i
    unfolding ns2_def
  proof (rule forward_pass_chain)
    show "Q x \<Longrightarrow> Q (fs x) \<and> R x (fs x)" for x by (rule F)
  qed (use Qrn ri that root1 len1 in simp_all)
  have bwd: "Q (ns3 ! i) \<and> R (ns3 ! i) (ns3 ! (i + 1))" if "i < nat ri" for i
    unfolding ns3_def
  proof (rule backward_pass_chain)
    show "Q x \<Longrightarrow> Q (bs x) \<and> R (bs x) x" for x by (rule B)
  qed (use Qrn ri that root2 len2 in simp_all)
  have allQ: "Q (ns3 ! i)" if "i < nat N" for i
  proof -
    consider "i < nat ri" | "i = nat ri" | "nat ri < i" by linarith
    then show ?thesis
    proof cases
      case 1
      then show ?thesis using bwd by simp
    next
      case 2
      then show ?thesis using keep[of i] root2 Qrn by simp
    next
      case 3
      then show ?thesis using keep[of i] fwd[of i] that by simp
    qed
  qed
  have step: "R (ns3 ! i) (ns3 ! Suc i)" if "Suc i < nat N" for i
  proof (cases "i < nat ri")
    case True
    then show ?thesis using bwd[of i] by simp
  next
    case False
    then have "nat ri < Suc i" by simp
    then have "R (ns2 ! (Suc i - 1)) (ns2 ! Suc i)" using fwd[of "Suc i"] that by simp
    then show ?thesis using keep[of i] keep[of "Suc i"] False by simp
  qed
  define sc where "sc = \<lparr>nodes = ns3, base_freq = bf, root_idx = ri\<rparr>"
  have n: "nodes sc = ns3" by (simp add: sc_def)
  have allQ': "\<forall>i < nat N. tuning_coord (ns3 ! i) = applyi A (natural_coord (ns3 ! i))
                  \<and> 0 \<le> dy (tuning_coord (ns3 ! i)) \<and> dy (tuning_coord (ns3 ! i)) < 1"
    using allQ unfolding Q_def by blast
  have step': "\<forall>i. Suc i < nat N \<longrightarrow> dx (tuning_coord (ns3 ! i)) < dx (tuning_coord (ns3 ! Suc i))"
    using step unfolding R_def by blast
  have "fromAffine fcs A bf N ri = Inr sc \<and> length (nodes sc) = nat N
           \<and> (\<forall>i < nat N. tuning_coord (nodes sc ! i) = applyi A (natural_coord (nodes sc ! i))
                  \<and> 0 \<le> dy (tuning_coord (nodes sc ! i)) \<and> dy (tuning_coord (nodes sc ! i)) < 1)
           \<and> (\<forall>i. Suc i < nat N \<longrightarrow>
                  dx (tuning_coord (nodes sc ! i)) < dx (tuning_coord (nodes sc ! Suc i)))"
    unfolding n using eq[folded sc_def] len3 allQ' step' by blast
  then show ?thesis ..
qed

text \<open>
  In exact arithmetic, then: for a transform with \<open>0 \<le> A(0,0).y < 1\<close>, a root index
  \<open>0 \<le> root_idx < N\<close> and a step pair within the bounds of \<open>stripPair\<close>, the scale has \<open>N\<close>
  nodes, every exact \<open>y\<close> lies in \<open>[0, 1)\<close> and the exact \<open>x\<close> is strictly increasing with
  the index.
\<close>

lemma fromAffine_path_exact:
  "0 \<le> ri \<Longrightarrow> ri < N \<Longrightarrow> 0 \<le> ty A \<Longrightarrow> ty A < 1 \<Longrightarrow>
   stripPair (A\<lparr>tx := 0, ty := 0\<rparr>) (fcs (A\<lparr>tx := 0, ty := 0\<rparr>)) \<Longrightarrow>
     \<exists>sc. fromAffine fcs A bf N ri = Inr sc \<and> length (nodes sc) = nat N
       \<and> (\<forall>i < nat N. 0 \<le> dy (tuning_coord (nodes sc ! i)) \<and> dy (tuning_coord (nodes sc ! i)) < 1)
       \<and> (\<forall>i j. i < j \<and> j < nat N \<longrightarrow>
             dx (tuning_coord (nodes sc ! i)) < dx (tuning_coord (nodes sc ! j)))"
proof -
  assume h: "0 \<le> ri" "ri < N" "0 \<le> ty A" "ty A < 1"
    "stripPair (A\<lparr>tx := 0, ty := 0\<rparr>) (fcs (A\<lparr>tx := 0, ty := 0\<rparr>))"
  obtain sc where sc: "fromAffine fcs A bf N ri = Inr sc" "length (nodes sc) = nat N"
    "\<forall>i < nat N. tuning_coord (nodes sc ! i) = applyi A (natural_coord (nodes sc ! i))
                  \<and> 0 \<le> dy (tuning_coord (nodes sc ! i)) \<and> dy (tuning_coord (nodes sc ! i)) < 1"
    "\<forall>i. Suc i < nat N \<longrightarrow>
                  dx (tuning_coord (nodes sc ! i)) < dx (tuning_coord (nodes sc ! Suc i))"
    using fromAffine_strip[of ri N A fcs bf] h by blast
  have "dx (tuning_coord (nodes sc ! i)) < dx (tuning_coord (nodes sc ! j))"
    if "i < j" "j < nat N" for i j
    using consecutive_less[of "nat N" "\<lambda>i. dx (tuning_coord (nodes sc ! i))" i j] sc(4) that
    by blast
  then show ?thesis
    using sc(1,2,3) by blast
qed

text \<open>
  An instance in which both loops run and the forward loop takes the branch that adds
  \<open>r + s\<close>: from the root at \<open>y = 0.35\<close> neither \<open>r\<close> (\<open>y + 0.7\<close>) nor \<open>s\<close> (\<open>y - 0.6\<close>)
  stays in the strip, and the node \<open>(1, 1)\<close> is stored.
\<close>

lemma fromAffine_path_exact_fallback:
  "\<exists>sc. fromAffine (\<lambda>M. (\<lparr>ix = 1, iy = 0\<rparr>, \<lparr>ix = 0, iy = 1\<rparr>))
           \<lparr>ta = 0.3, tb = 0.2, tc = 0.7, td = - 0.6, tx = 0, ty = 0.35\<rparr> 440 3 1 = Inr sc
      \<and> map natural_coord (nodes sc) = [\<lparr>ix = 0, iy = - 1\<rparr>, \<lparr>ix = 0, iy = 0\<rparr>, \<lparr>ix = 1, iy = 1\<rparr>]
      \<and> 0 \<le> dy (tuning_coord (nodes sc ! 2)) \<and> dy (tuning_coord (nodes sc ! 2)) < 1
      \<and> dx (tuning_coord (nodes sc ! 0)) < dx (tuning_coord (nodes sc ! 1))
      \<and> dx (tuning_coord (nodes sc ! 1)) < dx (tuning_coord (nodes sc ! 2))"
proof -
  let ?fcs = "\<lambda>M::AffineTransform. (\<lparr>ix = 1, iy = 0\<rparr>, \<lparr>ix = 0, iy = 1\<rparr>)"
  let ?A = "\<lparr>ta = 0.3, tb = 0.2, tc = 0.7, td = - 0.6, tx = 0, ty = 0.35\<rparr>"
  have sp: "stripPair (?A\<lparr>tx := 0, ty := 0\<rparr>) (?fcs (?A\<lparr>tx := 0, ty := 0\<rparr>))"
    by (simp add: stripPair_def applyi_def applyd_def toVector2d_def)
  obtain sc where sc: "fromAffine ?fcs ?A 440 3 1 = Inr sc"
    "\<forall>i < nat 3. 0 \<le> dy (tuning_coord (nodes sc ! i)) \<and> dy (tuning_coord (nodes sc ! i)) < 1"
    "\<forall>i j. i < j \<and> j < nat 3 \<longrightarrow>
             dx (tuning_coord (nodes sc ! i)) < dx (tuning_coord (nodes sc ! j))"
    using fromAffine_path_exact[of 1 3 ?A ?fcs 440] sp by auto
  have nat: "map natural_coord (nodes sc) = [\<lparr>ix = 0, iy = - 1\<rparr>, \<lparr>ix = 0, iy = 0\<rparr>, \<lparr>ix = 1, iy = 1\<rparr>]"
    using sc(1)
    by (auto simp: fromAffine_def recalcWithAffine_def newScale_def initNodes_def Let_def
        forward_pass.simps backward_pass.simps forward_step_def backward_step_def
        applyi_def applyd_def toVector2d_def addi_def subi_def numeral_3_eq_3)
  have y2: "0 \<le> dy (tuning_coord (nodes sc ! 2))" "dy (tuning_coord (nodes sc ! 2)) < 1"
    using sc(2) by simp_all
  have x01: "dx (tuning_coord (nodes sc ! 0)) < dx (tuning_coord (nodes sc ! 1))"
    using sc(3) by simp
  have x12: "dx (tuning_coord (nodes sc ! 1)) < dx (tuning_coord (nodes sc ! 2))"
    using sc(3) by simp
  show ?thesis
    by (rule exI[of _ sc]) (intro conjI sc(1) nat y2 x01 x12)
qed

text \<open>
  Together with the agreement of the algebraic test and the strip: for coprime \<open>a\<close>, \<open>b\<close>,
  a mode with \<open>0 \<le> mode < n\<close>, an exact answer of the solver and a step pair within the
  bounds of \<open>stripPair\<close>, every node of the base scale passes \<open>nodeInScale\<close>, again with
  the strip tests of the loops taken over the reals.
\<close>

lemma base_scale_nodes_in_scale:
  assumes v: "0 < a" "0 < b" and cop: "gcd a b = 1" and g: "0 \<le> g" "g \<le> 1"
    and md: "0 \<le> m" "m < a + b"
  shows "\<exists>mos. adjustParams ext a b m e g this = Some (Inr mos)
       \<and> (impliedAffineSolved (solve ext) mos
            \<and> stripPair ((impliedAffine mos)\<lparr>tx := 0, ty := 0\<rparr>)
                 (findClosestWithinStrip ext ((impliedAffine mos)\<lparr>tx := 0, ty := 0\<rparr>))
          \<longrightarrow> (\<forall>node \<in> set (nodes (base_scale mos)). nodeInScale mos (natural_coord node)))"
proof -
  obtain mos where mos: "adjustParams ext a b m e g this = Some (Inr mos)"
    "mos_a mos = a" "mos_b mos = b" "mos_n mos = a + b"
    "mos_a0 mos = a div gcd a b" "mos_b0 mos = b div gcd a b"
    "mos_n0 mos = a div gcd a b + b div gcd a b" "mos_mode mos = m"
    "applyPath (path mos) \<lparr>ix = 1, iy = 1\<rparr> = \<lparr>ix = mos_a0 mos, iy = mos_b0 mos\<rparr>"
    "v_gen mos = applyPath (path mos) \<lparr>ix = 1, iy = 0\<rparr>"
    "impliedAffine mos = calcImpliedAffine (solve ext) mos"
    "fromAffine (findClosestWithinStrip ext) (impliedAffine mos) 1 (a + b + 1) 0
          = Inr (base_scale mos)"
    using adjustParams_valid[OF v g, of ext m e this] by blast
  have f: "mos_a0 mos = a" "mos_b0 mos = b" "mos_n0 mos = a + b"
    using mos(5,6,7) cop by simp_all
  have det: "ix (v_gen mos) * mos_b0 mos - iy (v_gen mos) * mos_a0 mos = 1"
    unfolding mos(10) by (rule v_gen_det[OF mos(9)])
  have n0: "0 < mos_n0 mos" "mos_n0 mos = mos_a0 mos + mos_b0 mos"
    using v f by simp_all
  let ?A = "impliedAffine mos"
  have "nodeInScale mos (natural_coord node)"
    if ex: "impliedAffineSolved (solve ext) mos"
      and sp: "stripPair (?A\<lparr>tx := 0, ty := 0\<rparr>) (findClosestWithinStrip ext (?A\<lparr>tx := 0, ty := 0\<rparr>))"
      and node: "node \<in> set (nodes (base_scale mos))"
    for node
  proof -
    have iff: "(0 \<le> dy (applyi ?A w) \<and> dy (applyi ?A w) < 1)
       = (0 \<le> ix w * b - iy w * a + m \<and> ix w * b - iy w * a + m < a + b)" for w
      unfolding mos(11) implied_strip_iff[OF n0 det ex] by (simp add: f mos(8))
    have "dy (applyi ?A \<lparr>ix = 0, iy = 0\<rparr>) = ty ?A"
      by (simp add: applyi_def applyd_def toVector2d_def)
    then have ty: "0 \<le> ty ?A" "ty ?A < 1"
      using iff[of "\<lparr>ix = 0, iy = 0\<rparr>"] md by simp_all
    obtain sc where sc: "fromAffine (findClosestWithinStrip ext) ?A 1 (a + b + 1) 0 = Inr sc"
      "length (nodes sc) = nat (a + b + 1)"
      "\<forall>i < nat (a + b + 1). tuning_coord (nodes sc ! i) = applyi ?A (natural_coord (nodes sc ! i))
                  \<and> 0 \<le> dy (tuning_coord (nodes sc ! i)) \<and> dy (tuning_coord (nodes sc ! i)) < 1"
      using fromAffine_strip[of 0 "a + b + 1" ?A "findClosestWithinStrip ext" 1] v ty sp by auto
    have same: "sc = base_scale mos" using sc(1) mos(12) by simp
    obtain i where i: "i < length (nodes sc)" "node = nodes sc ! i"
      using node same by (auto simp: in_set_conv_nth)
    have "0 \<le> dy (applyi ?A (natural_coord node)) \<and> dy (applyi ?A (natural_coord node)) < 1"
      using sc(3) i sc(2) by auto
    then show ?thesis
      unfolding iff by (simp add: nodeInScale_def Let_def mos(2,3,4,8))
  qed
  then show ?thesis using mos(1) by blast
qed

section \<open>The claims\<close>

text \<open>
  Claim C2 says that \<open>fromAffine\<close> rejects or renormalizes a transform that is not
  normalized, so that every node, the root included, has
  \<open>pitch = base_freq * 2 ^ tuning_coord.x\<close>. The code does neither. With the translation
  \<open>tx = 1\<close>, base frequency 1, one node and root index 0 it returns the scale whose root has
  \<open>pitch = 1\<close> and \<open>tuning_coord = (1, 0)\<close>, and \<open>1 \<noteq> 1 * 2 ^ 1\<close>.
\<close>

theorem C2_counterexample:
  "fromAffine (\<lambda>M. (\<lparr>ix = 1, iy = 0\<rparr>, \<lparr>ix = 0, iy = 1\<rparr>))
       \<lparr>ta = 1, tb = 0, tc = 0, td = 1, tx = 1, ty = 0\<rparr> 1 1 0
     = Inr \<lparr>nodes = [Node0\<lparr>tuning_coord := \<lparr>dx = 1, dy = 0\<rparr>, pitch := 1\<rparr>],
            base_freq = 1, root_idx = 0\<rparr>
   \<and> (1::real) \<noteq> 1 * 2 powr 1"
  by (simp add: fromAffine_def recalcWithAffine_def newScale_def initNodes_def Let_def
      forward_pass.simps backward_pass.simps applyi_def applyd_def toVector2d_def Node0_def)

text \<open>
  Claim C2 as amended. For \<open>0 \<le> root_idx < N\<close>, \<open>fromAffine\<close> returns a scale of \<open>N\<close> nodes
  for any transform, without a check and without a change to it: the root node has
  \<open>pitch = base_freq\<close> and \<open>tuning_coord = A(0,0) = (tx, ty)\<close>; every other node has
  \<open>pitch = base_freq * 2 ^ tuning_coord.x\<close>; and when \<open>A(0,0).x = 0\<close> the root node has it too.
\<close>

theorem C2_fromAffine_pitch:
  "0 \<le> ri \<Longrightarrow> ri < N \<Longrightarrow>
     \<exists>sc. fromAffine fcs A bf N ri = Inr sc \<and> length (nodes sc) = nat N
       \<and> pitch (nodes sc ! nat ri) = bf
       \<and> tuning_coord (nodes sc ! nat ri) = \<lparr>dx = tx A, dy = ty A\<rparr>
       \<and> (\<forall>i < nat N. i \<noteq> nat ri \<longrightarrow>
             pitch (nodes sc ! i) = bf * 2 powr dx (tuning_coord (nodes sc ! i)))
       \<and> (tx A = 0 \<longrightarrow> (\<forall>i < nat N.
             pitch (nodes sc ! i) = bf * 2 powr dx (tuning_coord (nodes sc ! i))))"
proof -
  assume ri: "0 \<le> ri" "ri < N"
  obtain sc where sc: "fromAffine fcs A bf N ri = Inr sc" "length (nodes sc) = nat N"
    "nodes sc ! nat ri = Node0\<lparr>natural_coord := \<lparr>ix = 0, iy = 0\<rparr>,
                         tuning_coord := applyi A \<lparr>ix = 0, iy = 0\<rparr>, pitch := bf\<rparr>"
    "\<forall>i < nat N. i \<noteq> nat ri \<longrightarrow> pitch (nodes sc ! i) = bf * 2 powr dx (tuning_coord (nodes sc ! i))"
    using fromAffine_result[OF ri, of "\<lambda>node. pitch node = bf * 2 powr dx (tuning_coord node)" A bf fcs]
    by (auto simp: forward_step_pitch backward_step_pitch)
  have rp: "pitch (nodes sc ! nat ri) = bf"
    and rt: "tuning_coord (nodes sc ! nat ri) = \<lparr>dx = tx A, dy = ty A\<rparr>"
    by (simp_all add: sc(3) applyi_def applyd_def toVector2d_def)
  have all: "pitch (nodes sc ! i) = bf * 2 powr dx (tuning_coord (nodes sc ! i))"
    if "tx A = 0" "i < nat N" for i
  proof (cases "i = nat ri")
    case True
    then show ?thesis using rp rt that by simp
  next
    case False
    then show ?thesis using sc(4) that by simp
  qed
  show ?thesis
    using sc(1,2,4) rp rt all by (intro exI[of _ sc]) simp
qed

text \<open>An instance of the amended claim C2: three nodes around root index 1.\<close>

theorem C2_witness:
  "\<forall>fcs. \<exists>sc. fromAffine fcs \<lparr>ta = 1, tb = 2, tc = 3, td = 4, tx = 0, ty = 0.5\<rparr> 440 3 1 = Inr sc
      \<and> length (nodes sc) = 3
      \<and> pitch (nodes sc ! 0) = 440 * 2 powr dx (tuning_coord (nodes sc ! 0))
      \<and> pitch (nodes sc ! 1) = 440 * 2 powr dx (tuning_coord (nodes sc ! 1))
      \<and> pitch (nodes sc ! 2) = 440 * 2 powr dx (tuning_coord (nodes sc ! 2))"
proof
  fix fcs
  obtain sc where sc: "fromAffine fcs \<lparr>ta = 1, tb = 2, tc = 3, td = 4, tx = 0, ty = 0.5\<rparr> 440 3 1 = Inr sc"
    "length (nodes sc) = nat 3"
    "\<forall>i < nat 3. pitch (nodes sc ! i) = 440 * 2 powr dx (tuning_coord (nodes sc ! i))"
    using C2_fromAffine_pitch[of 1 3 fcs "\<lparr>ta = 1, tb = 2, tc = 3, td = 4, tx = 0, ty = 0.5\<rparr>" 440]
    by auto
  show "\<exists>sc. fromAffine fcs \<lparr>ta = 1, tb = 2, tc = 3, td = 4, tx = 0, ty = 0.5\<rparr> 440 3 1 = Inr sc
      \<and> length (nodes sc) = 3
      \<and> pitch (nodes sc ! 0) = 440 * 2 powr dx (tuning_coord (nodes sc ! 0))
      \<and> pitch (nodes sc ! 1) = 440 * 2 powr dx (tuning_coord (nodes sc ! 1))
      \<and> pitch (nodes sc ! 2) = 440 * 2 powr dx (tuning_coord (nodes sc ! 2))"
    using sc by (intro exI[of _ sc]) simp
qed




text \<open>
  Claim C4. For every valid input (\<open>a > 0\<close>, \<open>b > 0\<close>, \<open>0 \<le> generator \<le> 1\<close>) \<open>adjustParams\<close>
  returns a state, and in it \<open>repetitions = gcd a b\<close>, \<open>a0 + b0 = n0\<close>, \<open>gcd a0 b0 = 1\<close> and
  \<open>repetitions * n0 = n = a + b\<close>; moreover \<open>repetitions * a0 = a\<close> and
  \<open>repetitions * b0 = b\<close>. The result holds whatever the three absent functions return.
\<close>

theorem C4_adjustParams_derived_fields:
  "0 < a \<Longrightarrow> 0 < b \<Longrightarrow> 0 \<le> g \<Longrightarrow> g \<le> 1 \<Longrightarrow>
     \<exists>mos. adjustParams ext a b m e g this = Some (Inr mos)
       \<and> mos_repetitions mos = gcd a b
       \<and> mos_a0 mos + mos_b0 mos = mos_n0 mos
       \<and> gcd (mos_a0 mos) (mos_b0 mos) = 1
       \<and> mos_repetitions mos * mos_n0 mos = mos_n mos
       \<and> mos_n mos = a + b
       \<and> mos_repetitions mos * mos_a0 mos = a
       \<and> mos_repetitions mos * mos_b0 mos = b"
proof -
  assume v: "0 < a" "0 < b" "0 \<le> g" "g \<le> 1"
  obtain mos where mos: "adjustParams ext a b m e g this = Some (Inr mos)"
    "mos_n mos = a + b" "mos_repetitions mos = gcd a b"
    "mos_a0 mos = a div gcd a b" "mos_b0 mos = b div gcd a b"
    "mos_n0 mos = a div gcd a b + b div gcd a b"
    using adjustParams_valid[OF v, of ext m e this] by blast
  have cop: "coprime (a div gcd a b) (b div gcd a b)"
    using v(1) by (intro div_gcd_coprime) simp
  have da: "gcd a b * (a div gcd a b) = a" and db: "gcd a b * (b div gcd a b) = b"
    by simp_all
  have "gcd a b * (a div gcd a b + b div gcd a b) = a + b"
    using da db by (simp add: distrib_left)
  then show ?thesis
    using mos cop da db by (intro exI[of _ mos]) (simp add: coprime_iff_gcd_eq_1)
qed

text \<open>
  The instance of claim C4: \<open>MOS(a=5, b=2, mode=1, equave=1.0, generator=0.585)\<close> has
  \<open>n = 7\<close>, \<open>a0 = 5\<close>, \<open>b0 = 2\<close>, \<open>n0 = 7\<close> and \<open>repetitions = 1\<close>.
\<close>

theorem C4_witness_diatonic:
  "\<forall>ext this. \<exists>mos. adjustParams ext 5 2 1 1.0 0.585 this = Some (Inr mos)
      \<and> mos_n mos = 7 \<and> mos_a0 mos = 5 \<and> mos_b0 mos = 2 \<and> mos_n0 mos = 7
      \<and> mos_repetitions mos = 1"
proof (intro allI)
  fix ext this
  have g52: "gcd (5::int) 2 = 1"
    using gcd_red_int[of 5 2] by simp
  obtain mos where mos: "adjustParams ext 5 2 1 1.0 0.585 this = Some (Inr mos)"
    "mos_repetitions mos = gcd 5 2" "mos_a0 mos + mos_b0 mos = mos_n0 mos"
    "mos_repetitions mos * mos_n0 mos = mos_n mos" "mos_n mos = 5 + 2"
    "mos_repetitions mos * mos_a0 mos = 5" "mos_repetitions mos * mos_b0 mos = 2"
    using C4_adjustParams_derived_fields[of 5 2 "0.585" ext 1 "1.0" this] by auto
  show "\<exists>mos. adjustParams ext 5 2 1 1.0 0.585 this = Some (Inr mos)
      \<and> mos_n mos = 7 \<and> mos_a0 mos = 5 \<and> mos_b0 mos = 2 \<and> mos_n0 mos = 7
      \<and> mos_repetitions mos = 1"
    using mos g52 by (intro exI[of _ mos]) simp
qed

text \<open>
  Claim C5. For every boolean path and every lattice vector \<open>v\<close>,
  \<open>applyPathReverse path (applyPath path v) = v\<close>.
\<close>

theorem C5_applyPath_roundtrip: "applyPathReverse ps (applyPath ps v) = v"
  by (simp add: applyPathReverse_def applyPath_def applyPath_loop_roundtrip)

text \<open>
  Claim C6 says that \<open>nodeScaleDegree\<close> is the non-negative residue of \<open>v.x + v.y\<close> modulo
  \<open>n\<close> and \<open>nodeEquaveNr\<close> its floored quotient, for every lattice vector. The code adds
  \<open>256 * n\<close> before the truncating \<open>%\<close> and \<open>/\<close>, which repairs negative sums only down to
  \<open>- 256 * n\<close>. In the MOS of the spec's scenario (\<open>n = 7\<close>) the vector \<open>(-1800, 0)\<close> gets
  degree \<open>-1\<close> where the residue is 6, and equave number \<open>-257\<close> where the floor is
  \<open>-258\<close>.
\<close>

theorem C6_degree_at_failing_input:
  "\<forall>ext this. \<exists>mos. adjustParams ext 5 2 1 1.0 0.585 this = Some (Inr mos)
      \<and> mos_n mos = 7
      \<and> nodeScaleDegree mos \<lparr>ix = - 1800, iy = 0\<rparr> = Inr (- 1)
      \<and> (- 1800 + 0) mod mos_n mos = 6
      \<and> nodeEquaveNr mos \<lparr>ix = - 1800, iy = 0\<rparr> = Inr (- 257)
      \<and> (- 1800 + 0) div mos_n mos = - 258"
proof (intro allI)
  fix ext this
  obtain mos where mos: "adjustParams ext 5 2 1 1.0 0.585 this = Some (Inr mos)"
    "mos_n mos = 5 + 2"
    using adjustParams_valid[of 5 2 "0.585" ext 1 "1.0" this] by auto
  show "\<exists>mos. adjustParams ext 5 2 1 1.0 0.585 this = Some (Inr mos)
      \<and> mos_n mos = 7
      \<and> nodeScaleDegree mos \<lparr>ix = - 1800, iy = 0\<rparr> = Inr (- 1)
      \<and> (- 1800 + 0) mod mos_n mos = 6
      \<and> nodeEquaveNr mos \<lparr>ix = - 1800, iy = 0\<rparr> = Inr (- 257)
      \<and> (- 1800 + 0) div mos_n mos = - 258"
    using mos
    by (intro exI[of _ mos])
       (simp add: nodeScaleDegree_def nodeEquaveNr_def signed_modulo_int_def signed_divide_int_def)
qed

text \<open>
  Claim C7. Whenever \<open>a \<le> 0\<close>, \<open>b \<le> 0\<close> or the generator is outside \<open>[0, 1]\<close>,
  \<open>adjustParams\<close> fails on its assertions: the result is the failure, no state is
  returned, and no input is clamped.
\<close>

theorem C7_adjustParams_rejects:
  "a \<le> 0 \<or> b \<le> 0 \<or> g < 0 \<or> 1 < g \<Longrightarrow>
     adjustParams ext a b m e g this = Some (Inl AssertionFailed)"
  by (auto simp: adjustParams_def)

text \<open>Instances of claim C7, one for each way of being invalid.\<close>

theorem C7_witness:
  "\<forall>ext this. adjustParams ext 0 2 1 1.0 0.585 this = Some (Inl AssertionFailed)
     \<and> adjustParams ext 5 (- 2) 1 1.0 0.585 this = Some (Inl AssertionFailed)
     \<and> adjustParams ext 5 2 1 1.0 1.5 this = Some (Inl AssertionFailed)
     \<and> adjustParams ext 5 2 1 1.0 (- 0.1) this = Some (Inl AssertionFailed)"
  using C7_adjustParams_rejects[of 0 2 "0.585" _ 1 "1.0"]
        C7_adjustParams_rejects[of 5 "- 2" "0.585" _ 1 "1.0"]
        C7_adjustParams_rejects[of 5 2 "1.5" _ 1 "1.0"]
        C7_adjustParams_rejects[of 5 2 "- 0.1" _ 1 "1.0"]
  by simp

text \<open>
  Claim C8. After \<open>retuneOnePoint v f\<close>, \<open>coordToFreq\<close> at \<open>v\<close> is \<open>base_freq * 2 ^ f\<close>
  (exactly, over the reals); the implied transform has changed by a translation of \<open>tx\<close>
  only; and the natural coordinates of the base scale's nodes are unchanged.
\<close>

theorem C8_retuneOnePoint:
  "coordToFreq (retuneOnePoint m v lfr) (real_of_int (ix v)) (real_of_int (iy v)) bf
       = bf * 2 powr lfr
   \<and> impliedAffine (retuneOnePoint m v lfr)
       = (impliedAffine m)\<lparr>tx := tx (impliedAffine m) + (lfr - dx (applyi (impliedAffine m) v))\<rparr>
   \<and> map natural_coord (nodes (base_scale (retuneOnePoint m v lfr)))
       = map natural_coord (nodes (base_scale m))"
  by (simp add: retuneOnePoint_def Let_def recalcOnRetune_frame retuneWithAffine_natural
      coordToFreq_def applyi_def applyd_def toVector2d_def)



text \<open>
  Claim C10. For every MOS state and every lattice vector \<open>v\<close>, membership is periodic
  under the full-period vector: \<open>nodeInScale (v + (a, b)) = nodeInScale v\<close>.
\<close>

theorem C10_nodeInScale_periodic:
  "nodeInScale m (addi v \<lparr>ix = mos_a m, iy = mos_b m\<rparr>) = nodeInScale m v"
  by (simp add: nodeInScale_def addi_def algebra_simps)

end
